theory Spec2Isabelle
  imports Main
begin

section \<open>The scheduling service of main.py\<close>

text \<open>
  The program is one class, \<open>SchedulingService\<close>, that drives a Playwright page through
  a fixed flow (navigate, select the appointment type, optionally pick a date, scrape
  the slots) and caches the scraped list in the dictionary \<open>self.state\<close> under the key
  \<open>(appointment_type, date_preference)\<close>.

  The browser is not part of the program. It is a parameter of the model: a record of
  the page methods the class calls, each a function from the state of the outside
  world to an outcome and a new state of the world. Nothing is assumed about these
  functions, so a page that changes between two calls, a method that raises, and a
  page object that was never opened (every method raises) are all instances.
  Every call of a page method is appended to a list of calls kept beside the world,
  so that "no navigation", "no click" and "no screenshot" are statements about
  that list. The calls to \<open>logger\<close> have no effect on control flow or on the data and
  are left out.
\<close>

subsection \<open>Exceptions and results\<close>

text \<open>
  The exceptions that reach the handlers \<open>except Exception\<close>: the \<open>ValueError\<close> the
  program raises itself, and the errors of the page methods.
\<close>

datatype exn =
    ValueError string
  | AttributeError string
  | PlaywrightError string
  | TimeoutError string

subsection \<open>The page object\<close>

text \<open>
  The page methods called by the program, over a world \<open>'w\<close> and element handles \<open>'e\<close>:
  \<open>page.goto(url)\<close>, \<open>page.wait_for_load_state(state)\<close>, \<open>page.click(selector)\<close>,
  \<open>page.wait_for_selector(selector, timeout=ms)\<close>, \<open>page.query_selector_all(selector)\<close>,
  \<open>element.inner_text()\<close>, \<open>page.locator(selector).inner_text()\<close> and
  \<open>page.screenshot(path=p)\<close>.
\<close>

record ('w, 'e) page =
  goto :: "string \<Rightarrow> 'w \<Rightarrow> (exn + unit) \<times> 'w"
  wait_for_load_state :: "string \<Rightarrow> 'w \<Rightarrow> (exn + unit) \<times> 'w"
  click :: "string \<Rightarrow> 'w \<Rightarrow> (exn + unit) \<times> 'w"
  wait_for_selector :: "string \<Rightarrow> nat \<Rightarrow> 'w \<Rightarrow> (exn + unit) \<times> 'w"
  query_selector_all :: "string \<Rightarrow> 'w \<Rightarrow> (exn + 'e list) \<times> 'w"
  inner_text :: "'e \<Rightarrow> 'w \<Rightarrow> (exn + string) \<times> 'w"
  locator_inner_text :: "string \<Rightarrow> 'w \<Rightarrow> (exn + string) \<times> 'w"
  screenshot :: "string \<Rightarrow> 'w \<Rightarrow> (exn + unit) \<times> 'w"

datatype 'e call =
    Goto string
  | WaitForLoadState string
  | Click string
  | WaitForSelector string nat
  | QuerySelectorAll string
  | InnerText 'e
  | LocatorInnerText string
  | Screenshot string

subsection \<open>The service object\<close>

text \<open>A scraped slot is the dictionary \<open>{'date': date_text, 'time': time_text}\<close>.\<close>

record slot =
  date :: string
  time :: string

text \<open>
  The fields of \<open>SchedulingService\<close> that the query flow reads or writes: \<open>url\<close> and the
  cache \<open>state\<close>, a dictionary from \<open>(appointment_type, date_preference)\<close> to the scraped
  list. \<open>date_preference\<close> is \<open>None\<close> or a string. The world behind \<open>self.page\<close> and the
  list of page calls made so far are carried in the same record.
\<close>

type_synonym query_key = "string \<times> string option"

record ('w, 'e) SchedulingService =
  url :: string
  state :: "query_key \<rightharpoonup> slot list"
  world :: 'w
  calls :: "'e call list"

text \<open>\<open>SchedulingService(url)\<close>: an empty cache; no page call has been made.\<close>

definition init :: "string \<Rightarrow> 'w \<Rightarrow> ('w, 'e) SchedulingService" where
  "init u w = \<lparr>url = u, state = Map.empty, world = w, calls = []\<rparr>"

type_synonym ('w, 'e, 'a) action =
  "('w, 'e) SchedulingService \<Rightarrow> (exn + 'a) \<times> ('w, 'e) SchedulingService"

text \<open>Sequencing of two awaited statements: an exception of the first skips the second.\<close>

definition andthen :: "('w, 'e, 'a) action \<Rightarrow> ('a \<Rightarrow> ('w, 'e, 'b) action) \<Rightarrow> ('w, 'e, 'b) action" where
  "andthen m f s = (case m s of (Inl e, s') \<Rightarrow> (Inl e, s') | (Inr v, s') \<Rightarrow> f v s')"

definition return :: "'a \<Rightarrow> ('w, 'e, 'a) action" where
  "return v s = (Inr v, s)"

definition raise :: "exn \<Rightarrow> ('w, 'e, 'a) action" where
  "raise e s = (Inl e, s)"

text \<open>One call of a page method: the world moves on and the call is recorded.\<close>

definition invoke :: "'e call \<Rightarrow> ('w \<Rightarrow> (exn + 'a) \<times> 'w) \<Rightarrow> ('w, 'e, 'a) action" where
  "invoke c f s =
     (case f (world s) of (r, w') \<Rightarrow> (r, s\<lparr>world := w', calls := calls s @ [c]\<rparr>))"

definition page_goto :: "('w, 'e) page \<Rightarrow> string \<Rightarrow> ('w, 'e, unit) action" where
  "page_goto P u = invoke (Goto u) (goto P u)"

definition page_wait_for_load_state :: "('w, 'e) page \<Rightarrow> string \<Rightarrow> ('w, 'e, unit) action" where
  "page_wait_for_load_state P st = invoke (WaitForLoadState st) (wait_for_load_state P st)"

definition page_click :: "('w, 'e) page \<Rightarrow> string \<Rightarrow> ('w, 'e, unit) action" where
  "page_click P sel = invoke (Click sel) (click P sel)"

definition page_wait_for_selector :: "('w, 'e) page \<Rightarrow> string \<Rightarrow> nat \<Rightarrow> ('w, 'e, unit) action" where
  "page_wait_for_selector P sel ms = invoke (WaitForSelector sel ms) (wait_for_selector P sel ms)"

definition page_query_selector_all :: "('w, 'e) page \<Rightarrow> string \<Rightarrow> ('w, 'e, 'e list) action" where
  "page_query_selector_all P sel = invoke (QuerySelectorAll sel) (query_selector_all P sel)"

definition element_inner_text :: "('w, 'e) page \<Rightarrow> 'e \<Rightarrow> ('w, 'e, string) action" where
  "element_inner_text P el = invoke (InnerText el) (inner_text P el)"

definition page_locator_inner_text :: "('w, 'e) page \<Rightarrow> string \<Rightarrow> ('w, 'e, string) action" where
  "page_locator_inner_text P sel = invoke (LocatorInnerText sel) (locator_inner_text P sel)"

definition page_screenshot :: "('w, 'e) page \<Rightarrow> string \<Rightarrow> ('w, 'e, unit) action" where
  "page_screenshot P p = invoke (Screenshot p) (screenshot P p)"

subsection \<open>The handler shared by the four steps\<close>

text \<open>
  Each step has the shape
  \<^verbatim>\<open>
  try:
      body
  except Exception as e:
      logger.error(...)
      await self.page.screenshot(path="error_screenshot.png")
      raise
  \<close>
  The screenshot is awaited inside the handler with no handler of its own: when it
  raises, its exception leaves the function and the bare \<open>raise\<close> is not reached.
\<close>

definition error_screenshot :: string where
  "error_screenshot = ''error_screenshot.png''"

definition try_except :: "('w, 'e) page \<Rightarrow> ('w, 'e, 'a) action \<Rightarrow> ('w, 'e, 'a) action" where
  "try_except P body s =
     (case body s of
        (Inr v, s1) \<Rightarrow> (Inr v, s1)
      | (Inl e, s1) \<Rightarrow>
          (case page_screenshot P error_screenshot s1 of
             (Inl e2, s2) \<Rightarrow> (Inl e2, s2)
           | (Inr _, s2) \<Rightarrow> (Inl e, s2)))"

subsection \<open>The four steps\<close>

definition navigate_try :: "('w, 'e) page \<Rightarrow> ('w, 'e, unit) action" where
  "navigate_try P s =
     andthen (page_goto P (url s)) (\<lambda>_. page_wait_for_load_state P ''networkidle'') s"

definition navigate_to_scheduling_page :: "('w, 'e) page \<Rightarrow> ('w, 'e, unit) action" where
  "navigate_to_scheduling_page P = try_except P (navigate_try P)"

text \<open>The selector \<open>text="..."\<close> of a visible text; \<open>CHR 0x22\<close> is the double quote.\<close>

definition text_selector :: "string \<Rightarrow> string" where
  "text_selector t = ''text='' @ [CHR 0x22] @ t @ [CHR 0x22]"

definition unknown_appointment_type :: "string \<Rightarrow> exn" where
  "unknown_appointment_type t = ValueError (''Unknown appointment type: '' @ t)"

definition select_try :: "('w, 'e) page \<Rightarrow> string \<Rightarrow> ('w, 'e, unit) action" where
  "select_try P appointment_type =
     (if appointment_type = ''New appointment''
        then page_click P (text_selector ''New appointment'')
      else if appointment_type = ''Emergency appointment''
        then page_click P (text_selector ''Emergency appointment'')
      else if appointment_type = ''Invisalign consultation''
        then page_click P (text_selector ''Invisalign consultation'')
      else raise (unknown_appointment_type appointment_type))"

definition select_appointment_type_direct_click ::
    "('w, 'e) page \<Rightarrow> string \<Rightarrow> ('w, 'e, unit) action" where
  "select_appointment_type_direct_click P appointment_type =
     try_except P (select_try P appointment_type)"

text \<open>
  Python's truth value of \<open>date_preference\<close>: \<open>None\<close> and the empty string are false,
  every other string is true.
\<close>

fun truthy :: "string option \<Rightarrow> bool" where
  "truthy None = False"
| "truthy (Some d) = (d \<noteq> [])"

definition set_date_preference :: "('w, 'e) page \<Rightarrow> string option \<Rightarrow> ('w, 'e, unit) action" where
  "set_date_preference P date_preference =
     (case date_preference of
        None \<Rightarrow> return ()
      | Some d \<Rightarrow>
          if truthy (Some d) then try_except P (page_click P (text_selector d))
          else return ())"

text \<open>
  The loop \<open>for slot in slots[:5]\<close>: for each element, its text, then the text of the
  \<open>.selected-date\<close> locator, then the append. \<open>available_slots\<close> is the accumulator.
\<close>

fun slots_loop ::
    "('w, 'e) page \<Rightarrow> 'e list \<Rightarrow> slot list \<Rightarrow> ('w, 'e, slot list) action" where
  "slots_loop P [] available_slots s = (Inr available_slots, s)"
| "slots_loop P (el # els) available_slots s =
     (case element_inner_text P el s of
        (Inl e, s1) \<Rightarrow> (Inl e, s1)
      | (Inr time_text, s1) \<Rightarrow>
          (case page_locator_inner_text P ''.selected-date'' s1 of
             (Inl e, s2) \<Rightarrow> (Inl e, s2)
           | (Inr date_text, s2) \<Rightarrow>
               slots_loop P els
                 (available_slots @ [\<lparr>date = date_text, time = time_text\<rparr>]) s2))"

definition get_slots_try :: "('w, 'e) page \<Rightarrow> ('w, 'e, slot list) action" where
  "get_slots_try P =
     andthen (page_wait_for_selector P ''.time-slot'' 10000) (\<lambda>_.
     andthen (page_query_selector_all P ''.time-slot'') (\<lambda>slots.
     slots_loop P (take 5 slots) []))"

definition get_available_slots :: "('w, 'e) page \<Rightarrow> ('w, 'e, slot list) action" where
  "get_available_slots P = try_except P (get_slots_try P)"

subsection \<open>The query\<close>

definition cache_key :: "string \<Rightarrow> string option \<Rightarrow> query_key" where
  "cache_key appointment_type date_preference = (appointment_type, date_preference)"

definition cache_store :: "query_key \<Rightarrow> slot list \<Rightarrow> ('w, 'e, slot list) action" where
  "cache_store k available_slots s =
     (Inr available_slots, s\<lparr>state := (state s)(k \<mapsto> available_slots)\<rparr>)"

definition check_available_appointments ::
    "('w, 'e) page \<Rightarrow> string \<Rightarrow> string option \<Rightarrow> ('w, 'e, slot list) action" where
  "check_available_appointments P appointment_type date_preference s =
     (case state s (cache_key appointment_type date_preference) of
        Some cached \<Rightarrow> (Inr cached, s)
      | None \<Rightarrow>
          andthen (navigate_to_scheduling_page P) (\<lambda>_.
          andthen (select_appointment_type_direct_click P appointment_type) (\<lambda>_.
          andthen (if truthy date_preference then set_date_preference P date_preference
                   else return ()) (\<lambda>_.
          andthen (get_available_slots P) (\<lambda>available_slots.
          cache_store (cache_key appointment_type date_preference) available_slots)))) s)"

subsection \<open>Vocabulary for the properties\<close>

text \<open>Kinds of page calls.\<close>

fun is_navigation :: "'e call \<Rightarrow> bool" where
  "is_navigation (Goto u) = True"
| "is_navigation (WaitForLoadState st) = True"
| "is_navigation c = False"

fun is_click :: "'e call \<Rightarrow> bool" where
  "is_click (Click sel) = True"
| "is_click c = False"

fun is_screenshot :: "'e call \<Rightarrow> bool" where
  "is_screenshot (Screenshot p) = True"
| "is_screenshot c = False"

fun is_label_read :: "'e call \<Rightarrow> bool" where
  "is_label_read (LocatorInnerText sel) = True"
| "is_label_read c = False"

text \<open>
  An action makes only calls of kind \<open>A\<close>, and leaves \<open>url\<close> and the cache alone.
\<close>

definition only_calls :: "('e call \<Rightarrow> bool) \<Rightarrow> ('w, 'e, 'a) action \<Rightarrow> bool" where
  "only_calls A m =
     (\<forall>s r s'. m s = (r, s') \<longrightarrow>
        url s' = url s \<and> state s' = state s \<and>
        (\<exists>cs. calls s' = calls s @ cs \<and> (\<forall>c \<in> set cs. A c)))"

text \<open>
  The reads that the loop of \<open>get_available_slots\<close> makes for the elements \<open>els\<close> when
  it starts in the world \<open>w\<close>: for each element in turn, the outcome of reading the
  element's text, then the outcome of reading the \<open>.selected-date\<close> label in the world
  that the first read left. The next element is read in the world that the label
  read left.
\<close>

fun slot_reads ::
    "('w, 'e) page \<Rightarrow> 'e list \<Rightarrow> 'w \<Rightarrow> ((exn + string) \<times> (exn + string)) list" where
  "slot_reads P [] w = []"
| "slot_reads P (el # els) w =
     (case inner_text P el w of (time_read, w1) \<Rightarrow>
        (case locator_inner_text P ''.selected-date'' w1 of (label_read, w2) \<Rightarrow>
           (time_read, label_read) # slot_reads P els w2))"

text \<open>
  Lines 111 to 116 of \<open>check_available_appointments\<close>: the four steps, before the
  result is stored.
\<close>

definition query_flow :: "('w, 'e) page \<Rightarrow> string \<Rightarrow> string option \<Rightarrow> ('w, 'e, slot list) action" where
  "query_flow P appointment_type date_preference =
     andthen (navigate_to_scheduling_page P) (\<lambda>_.
     andthen (select_appointment_type_direct_click P appointment_type) (\<lambda>_.
     andthen (if truthy date_preference then set_date_preference P date_preference
              else return ()) (\<lambda>_.
     get_available_slots P)))"

text \<open>The three strings \<open>select_appointment_type_direct_click\<close> compares with.\<close>

definition recognized_types :: "string set" where
  "recognized_types = {''New appointment'', ''Emergency appointment'', ''Invisalign consultation''}"

text \<open>Every key of the cache has a recognized appointment type.\<close>

definition recognized_keys :: "('w, 'e) SchedulingService \<Rightarrow> bool" where
  "recognized_keys s = (\<forall>k \<in> dom (state s). fst k \<in> recognized_types)"

subsection \<open>Example pages\<close>

text \<open>
  Concrete pages on which the definitions can be run. A \<open>site\<close> is the content of the
  scheduling page at one moment: whether it can be loaded, the visible texts that can
  be clicked, the texts of the \<open>.time-slot\<close> elements in document order, the text of
  the \<open>.selected-date\<close> element when there is one, and whether a screenshot can be
  taken. Element handles are positions in the list of slot elements.
\<close>

record site =
  reachable :: bool
  clickable :: "string list"
  time_slots :: "string list"
  selected_date :: "string option"
  camera_ok :: bool

text \<open>A page whose content never changes; its methods ignore the world.\<close>

definition static_page :: "site \<Rightarrow> ('w, nat) page" where
  "static_page x =
     \<lparr>goto = (\<lambda>u w.
        (if reachable x then Inr () else Inl (PlaywrightError ''net::ERR_CONNECTION_REFUSED''), w)),
      wait_for_load_state = (\<lambda>st w. (Inr (), w)),
      click = (\<lambda>sel w.
        (if sel \<in> set (map text_selector (clickable x)) then Inr ()
         else Inl (TimeoutError ''Page.click: Timeout 30000ms exceeded.''), w)),
      wait_for_selector = (\<lambda>sel ms w.
        (if sel = ''.time-slot'' \<and> time_slots x \<noteq> [] then Inr ()
         else Inl (TimeoutError ''Page.wait_for_selector: Timeout exceeded.''), w)),
      query_selector_all = (\<lambda>sel w.
        (Inr (if sel = ''.time-slot'' then [0 ..< length (time_slots x)] else []), w)),
      inner_text = (\<lambda>i w.
        (if i < length (time_slots x) then Inr (time_slots x ! i)
         else Inl (PlaywrightError ''Element is not attached to the DOM''), w)),
      locator_inner_text = (\<lambda>sel w.
        (case (if sel = ''.selected-date'' then selected_date x else None) of
           Some label \<Rightarrow> Inr label
         | None \<Rightarrow> Inl (TimeoutError ''Locator.inner_text: Timeout 30000ms exceeded.''), w)),
      screenshot = (\<lambda>p w.
        (if camera_ok x then Inr () else Inl (PlaywrightError ''Page.screenshot: Target closed''), w))\<rparr>"

text \<open>
  A page whose content changes while it is used: the world is the list of its
  successive contents. A call is answered from the current content, and the page then
  moves on to the next content when there is one.
\<close>

fun observe :: "(site \<Rightarrow> unit \<Rightarrow> (exn + 'a) \<times> unit) \<Rightarrow> site list \<Rightarrow> (exn + 'a) \<times> site list" where
  "observe f [] = (Inl (PlaywrightError ''Target closed''), [])"
| "observe f [x] = (fst (f x ()), [x])"
| "observe f (x # y # later) = (fst (f x ()), y # later)"

definition live_page :: "(site list, nat) page" where
  "live_page =
     \<lparr>goto = (\<lambda>u. observe (\<lambda>x. goto (static_page x) u)),
      wait_for_load_state = (\<lambda>st. observe (\<lambda>x. wait_for_load_state (static_page x) st)),
      click = (\<lambda>sel. observe (\<lambda>x. click (static_page x) sel)),
      wait_for_selector = (\<lambda>sel ms. observe (\<lambda>x. wait_for_selector (static_page x) sel ms)),
      query_selector_all = (\<lambda>sel. observe (\<lambda>x. query_selector_all (static_page x) sel)),
      inner_text = (\<lambda>i. observe (\<lambda>x. inner_text (static_page x) i)),
      locator_inner_text = (\<lambda>sel. observe (\<lambda>x. locator_inner_text (static_page x) sel)),
      screenshot = (\<lambda>p. observe (\<lambda>x. screenshot (static_page x) p))\<rparr>"

text \<open>The page of the end-to-end example, and the service of \<open>main\<close>.\<close>

definition example_site :: site where
  "example_site =
     \<lparr>reachable = True,
      clickable = [''New appointment'', ''Emergency appointment'', ''Invisalign consultation'',
                   ''Oct 12, 2025''],
      time_slots = [''9:00 AM'', ''9:30 AM'', ''10:00 AM''],
      selected_date = Some ''Oct 10, 2025'',
      camera_ok = True\<rparr>"

definition busy_site :: site where
  "busy_site = example_site\<lparr>time_slots :=
     [''9:00 AM'', ''9:30 AM'', ''10:00 AM'', ''10:30 AM'', ''11:00 AM'', ''11:30 AM'', ''1:00 PM'']\<rparr>"

definition offline_site :: site where
  "offline_site = example_site\<lparr>reachable := False\<rparr>"

definition closed_site :: site where
  "closed_site = \<lparr>reachable = False, clickable = [], time_slots = [], selected_date = None,
     camera_ok = False\<rparr>"

definition next_day_site :: site where
  "next_day_site = example_site\<lparr>selected_date := Some ''Oct 11, 2025''\<rparr>"

definition sold_out_site :: site where
  "sold_out_site = example_site\<lparr>time_slots := []\<rparr>"

definition no_camera_site :: site where
  "no_camera_site = offline_site\<lparr>camera_ok := False\<rparr>"

definition example_slots :: "slot list" where
  "example_slots =
     [\<lparr>date = ''Oct 10, 2025'', time = ''9:00 AM''\<rparr>,
      \<lparr>date = ''Oct 10, 2025'', time = ''9:30 AM''\<rparr>,
      \<lparr>date = ''Oct 10, 2025'', time = ''10:00 AM''\<rparr>]"

definition unlabelled_site :: site where
  "unlabelled_site = example_site\<lparr>selected_date := None\<rparr>"

definition first_five :: "slot list" where
  "first_five =
     [\<lparr>date = ''Oct 10, 2025'', time = ''9:00 AM''\<rparr>,
      \<lparr>date = ''Oct 10, 2025'', time = ''9:30 AM''\<rparr>,
      \<lparr>date = ''Oct 10, 2025'', time = ''10:00 AM''\<rparr>,
      \<lparr>date = ''Oct 10, 2025'', time = ''10:30 AM''\<rparr>,
      \<lparr>date = ''Oct 10, 2025'', time = ''11:00 AM''\<rparr>]"

definition example_service :: "'w \<Rightarrow> ('w, nat) SchedulingService" where
  "example_service w = init ''https://care.425dental.com/schedule-appointments/'' w"

section \<open>Properties\<close>

subsection \<open>Auxiliary facts\<close>

text \<open>The definitions unfolded to run the model on a concrete page.\<close>

lemmas run_defs = andthen_def return_def raise_def invoke_def page_goto_def
  page_wait_for_load_state_def page_click_def page_wait_for_selector_def
  page_query_selector_all_def element_inner_text_def page_locator_inner_text_def
  page_screenshot_def try_except_def error_screenshot_def navigate_try_def
  navigate_to_scheduling_page_def text_selector_def unknown_appointment_type_def select_try_def
  select_appointment_type_direct_click_def set_date_preference_def get_slots_try_def
  get_available_slots_def cache_key_def cache_store_def check_available_appointments_def
  init_def static_page_def live_page_def example_site_def busy_site_def offline_site_def
  closed_site_def next_day_site_def sold_out_site_def no_camera_site_def example_slots_def
  unlabelled_site_def first_five_def example_service_def

lemma invoke_eq:
  "invoke c f s = (fst (f (world s)), s\<lparr>world := snd (f (world s)), calls := calls s @ [c]\<rparr>)"
  by (simp add: invoke_def split: prod.split)

lemma only_callsD:
  "only_calls A m \<Longrightarrow> m s = (r, s') \<Longrightarrow>
     url s' = url s \<and> state s' = state s \<and> (\<exists>cs. calls s' = calls s @ cs \<and> (\<forall>c \<in> set cs. A c))"
  unfolding only_calls_def by blast

lemma only_calls_invoke: "A c \<Longrightarrow> only_calls A (invoke c f)"
  by (auto simp: only_calls_def invoke_eq)

lemma only_calls_return: "only_calls A (return v)"
  by (simp add: only_calls_def return_def)

lemma only_calls_raise: "only_calls A (raise e)"
  by (simp add: only_calls_def raise_def)

lemma only_calls_andthen:
  assumes m: "only_calls A m" and f: "\<And>v. only_calls A (f v)"
  shows "only_calls A (andthen m f)"
  unfolding only_calls_def
proof (intro allI impI)
  fix s r s'
  assume run: "andthen m f s = (r, s')"
  obtain r1 s1 where m1: "m s = (r1, s1)" by (cases "m s")
  from only_callsD [OF m m1] obtain cs1 where
    a: "url s1 = url s" "state s1 = state s" "calls s1 = calls s @ cs1" "\<forall>c \<in> set cs1. A c"
    by blast
  show "url s' = url s \<and> state s' = state s \<and> (\<exists>cs. calls s' = calls s @ cs \<and> (\<forall>c\<in>set cs. A c))"
  proof (cases r1)
    case (Inl e)
    with run m1 have "s' = s1" by (simp add: andthen_def)
    with a show ?thesis by blast
  next
    case (Inr v)
    with run m1 have "f v s1 = (r, s')" by (simp add: andthen_def)
    from only_callsD [OF f this] obtain cs2 where
      b: "url s' = url s1" "state s' = state s1" "calls s' = calls s1 @ cs2" "\<forall>c \<in> set cs2. A c"
      by blast
    from a b have "calls s' = calls s @ (cs1 @ cs2)" "\<forall>c \<in> set (cs1 @ cs2). A c" by auto
    with a b show ?thesis by (metis)
  qed
qed

lemma try_except_andthen:
  "try_except P body s =
     (case body s of
        (Inr v, s1) \<Rightarrow> (Inr v, s1)
      | (Inl e, s1) \<Rightarrow>
          andthen (page_screenshot P error_screenshot) (\<lambda>_. raise e) s1)"
  by (simp add: try_except_def andthen_def raise_def split: prod.splits sum.splits)

lemma only_calls_try_except:
  assumes b: "only_calls A body" and sc: "A (Screenshot error_screenshot)"
  shows "only_calls A (try_except P body)"
  unfolding only_calls_def
proof (intro allI impI)
  fix s r s'
  assume run: "try_except P body s = (r, s')"
  obtain r1 s1 where b1: "body s = (r1, s1)" by (cases "body s")
  from only_callsD [OF b b1] obtain cs1 where
    a: "url s1 = url s" "state s1 = state s" "calls s1 = calls s @ cs1" "\<forall>c \<in> set cs1. A c"
    by blast
  show "url s' = url s \<and> state s' = state s \<and> (\<exists>cs. calls s' = calls s @ cs \<and> (\<forall>c\<in>set cs. A c))"
  proof (cases r1)
    case (Inr v)
    with run b1 have "s' = s1" by (simp add: try_except_def)
    with a show ?thesis by blast
  next
    case (Inl e)
    with run b1 have "andthen (page_screenshot P error_screenshot) (\<lambda>_. raise e) s1 = (r, s')"
      by (simp add: try_except_andthen)
    moreover have "only_calls A (andthen (page_screenshot P error_screenshot) (\<lambda>_. raise e))"
      by (intro only_calls_andthen only_calls_raise) (simp add: page_screenshot_def only_calls_invoke sc)
    ultimately obtain cs2 where
      b: "url s' = url s1" "state s' = state s1" "calls s' = calls s1 @ cs2" "\<forall>c \<in> set cs2. A c"
      using only_callsD by blast
    from a b have "calls s' = calls s @ (cs1 @ cs2)" "\<forall>c \<in> set (cs1 @ cs2). A c" by auto
    with a b show ?thesis by metis
  qed
qed

lemma only_calls_slots_loop:
  "A (LocatorInnerText ''.selected-date'') \<Longrightarrow> (\<And>el. A (InnerText el)) \<Longrightarrow>
   only_calls A (slots_loop P els acc)"
proof (induction els arbitrary: acc)
  case Nil
  then show ?case by (simp add: only_calls_def)
next
  case (Cons el els)
  have eq: "slots_loop P (el # els) acc =
      andthen (element_inner_text P el) (\<lambda>time_text.
      andthen (page_locator_inner_text P ''.selected-date'') (\<lambda>date_text.
      slots_loop P els (acc @ [\<lparr>date = date_text, time = time_text\<rparr>])))"
    by (rule ext) (simp add: andthen_def split: prod.splits sum.splits)
  show ?case unfolding eq
    by (intro only_calls_andthen Cons.IH Cons.prems)
       (simp_all add: element_inner_text_def page_locator_inner_text_def only_calls_invoke Cons.prems)
qed

lemma andthen_Inr:
  "andthen m f s = (Inr v, s') \<longleftrightarrow> (\<exists>u s1. m s = (Inr u, s1) \<and> f u s1 = (Inr v, s'))"
  by (auto simp: andthen_def split: prod.splits sum.splits)

lemma andthen_Inl:
  "andthen m f s = (Inl e, s') \<longleftrightarrow>
     (m s = (Inl e, s') \<or> (\<exists>u s1. m s = (Inr u, s1) \<and> f u s1 = (Inl e, s')))"
  by (auto simp: andthen_def split: prod.splits sum.splits)

lemma try_except_Inr: "try_except P body s = (Inr v, s') \<longleftrightarrow> body s = (Inr v, s')"
  by (auto simp: try_except_def split: prod.splits sum.splits)

lemma try_except_Inl:
  "try_except P body s = (Inl e, s') \<longleftrightarrow>
     (\<exists>e0 s1. body s = (Inl e0, s1) \<and>
        s' = s1\<lparr>world := snd (screenshot P error_screenshot (world s1)),
                 calls := calls s1 @ [Screenshot error_screenshot]\<rparr> \<and>
        e = (case fst (screenshot P error_screenshot (world s1)) of Inl e2 \<Rightarrow> e2 | Inr _ \<Rightarrow> e0))"
  by (auto simp: try_except_def page_screenshot_def invoke_eq split: prod.splits sum.splits)

lemma check_eq:
  "check_available_appointments P t d s =
     (case state s (cache_key t d) of
        Some cached \<Rightarrow> (Inr cached, s)
      | None \<Rightarrow> andthen (query_flow P t d) (cache_store (cache_key t d)) s)"
  by (simp add: check_available_appointments_def query_flow_def andthen_def
           split: option.splits prod.splits sum.splits)

lemma check_miss_Inr:
  "state s (cache_key t d) = None \<Longrightarrow>
   check_available_appointments P t d s = (Inr slots, s') \<longleftrightarrow>
     (\<exists>s4. query_flow P t d s = (Inr slots, s4) \<and>
           s' = s4\<lparr>state := (state s4)(cache_key t d \<mapsto> slots)\<rparr>)"
  by (auto simp: check_eq andthen_Inr cache_store_def)

lemma check_miss_Inl:
  "state s (cache_key t d) = None \<Longrightarrow>
   check_available_appointments P t d s = (Inl e, s') \<longleftrightarrow> query_flow P t d s = (Inl e, s')"
  by (auto simp: check_eq andthen_Inl cache_store_def)

lemma only_calls_navigate:
  assumes "\<And>c. is_navigation c \<or> is_screenshot c \<Longrightarrow> A c"
  shows "only_calls A (navigate_to_scheduling_page P)"
proof -
  have "only_calls A (navigate_try P)"
    unfolding only_calls_def
  proof (intro allI impI)
    fix s r s'
    assume "navigate_try P s = (r, s')"
    then have "andthen (page_goto P (url s)) (\<lambda>_. page_wait_for_load_state P ''networkidle'') s = (r, s')"
      by (simp add: navigate_try_def)
    moreover have "only_calls A (andthen (page_goto P (url s)) (\<lambda>_. page_wait_for_load_state P ''networkidle''))"
      by (intro only_calls_andthen)
         (simp_all add: page_goto_def page_wait_for_load_state_def only_calls_invoke assms)
    ultimately show "url s' = url s \<and> state s' = state s \<and>
        (\<exists>cs. calls s' = calls s @ cs \<and> (\<forall>c\<in>set cs. A c))"
      by (rule only_callsD [rotated])
  qed
  then show ?thesis
    unfolding navigate_to_scheduling_page_def
    by (rule only_calls_try_except) (simp add: assms)
qed

lemma only_calls_select:
  assumes "\<And>c. is_click c \<or> is_screenshot c \<Longrightarrow> A c"
  shows "only_calls A (select_appointment_type_direct_click P t)"
  unfolding select_appointment_type_direct_click_def select_try_def
  by (intro only_calls_try_except)
     (simp_all add: page_click_def only_calls_invoke only_calls_raise assms)

lemma only_calls_set_date:
  assumes "\<And>c. is_click c \<or> is_screenshot c \<Longrightarrow> A c"
  shows "only_calls A (set_date_preference P d)"
proof (cases d)
  case None
  then show ?thesis by (simp add: set_date_preference_def only_calls_return)
next
  case (Some x)
  have "only_calls A (try_except P (page_click P (text_selector x)))"
    by (intro only_calls_try_except) (simp_all add: page_click_def only_calls_invoke assms)
  with Some show ?thesis by (simp add: set_date_preference_def only_calls_return)
qed

lemma only_calls_get_slots:
  assumes "\<And>c. \<not> is_navigation c \<and> \<not> is_click c \<Longrightarrow> A c"
  shows "only_calls A (get_available_slots P)"
  unfolding get_available_slots_def get_slots_try_def
  by (intro only_calls_try_except only_calls_andthen only_calls_slots_loop)
     (simp_all add: page_wait_for_selector_def page_query_selector_all_def only_calls_invoke assms)

lemma click_not_navigation: "is_click c \<or> is_screenshot c \<Longrightarrow> \<not> is_navigation c"
  by (cases c) simp_all

lemma only_calls_after_navigation:
  "only_calls (\<lambda>c. \<not> is_navigation c)
     (andthen (select_appointment_type_direct_click P t) (\<lambda>_.
      andthen (if truthy d then set_date_preference P d else return ()) (\<lambda>_.
      get_available_slots P)))"
proof -
  have "only_calls (\<lambda>c. \<not> is_navigation c) (set_date_preference P d)"
    by (rule only_calls_set_date) (rule click_not_navigation)
  then have sd: "only_calls (\<lambda>c. \<not> is_navigation c)
      (if truthy d then set_date_preference P d else return ())"
    by (simp add: only_calls_return)
  show ?thesis
    by (intro only_calls_andthen only_calls_select only_calls_get_slots sd)
       (simp_all add: click_not_navigation)
qed

lemma only_calls_query_flow: "only_calls (\<lambda>c. True) (query_flow P t d)"
  unfolding query_flow_def
  by (intro only_calls_andthen only_calls_navigate only_calls_select only_calls_get_slots)
     (auto simp: only_calls_return intro: only_calls_set_date)

lemma query_flow_frame:
  "query_flow P t d s = (r, s') \<Longrightarrow> url s' = url s \<and> state s' = state s"
  using only_callsD [OF only_calls_query_flow] by blast

lemma navigate_Inr:
  "navigate_to_scheduling_page P s = (Inr v, s') \<Longrightarrow>
     calls s' = calls s @ [Goto (url s), WaitForLoadState ''networkidle''] \<and>
     url s' = url s \<and> state s' = state s"
  by (auto simp: navigate_to_scheduling_page_def try_except_Inr navigate_try_def andthen_Inr
        page_goto_def page_wait_for_load_state_def invoke_eq)

lemma navigate_Inl:
  "navigate_to_scheduling_page P s = (Inl e, s') \<Longrightarrow>
     (calls s' = calls s @ [Goto (url s), Screenshot error_screenshot] \<or>
      calls s' = calls s @ [Goto (url s), WaitForLoadState ''networkidle'', Screenshot error_screenshot]) \<and>
     url s' = url s \<and> state s' = state s"
  by (auto simp: navigate_to_scheduling_page_def try_except_Inl navigate_try_def andthen_Inl
        page_goto_def page_wait_for_load_state_def invoke_eq)

lemma query_flow_starts_with_goto:
  assumes "query_flow P t d s = (r, s')"
  shows "\<exists>cs. calls s' = calls s @ Goto (url s) # cs"
proof -
  obtain rn s1 where n: "navigate_to_scheduling_page P s = (rn, s1)"
    by (cases "navigate_to_scheduling_page P s")
  show ?thesis
  proof (cases rn)
    case (Inl e)
    with n assms have "s' = s1" by (simp add: query_flow_def andthen_def)
    with navigate_Inl n Inl show ?thesis by fastforce
  next
    case (Inr v)
    let ?rest = "andthen (select_appointment_type_direct_click P t) (\<lambda>_.
      andthen (if truthy d then set_date_preference P d else return ()) (\<lambda>_.
      get_available_slots P))"
    from Inr n assms have "?rest s1 = (r, s')" by (simp add: query_flow_def andthen_def)
    from only_callsD [OF only_calls_after_navigation this]
    obtain cs where "calls s' = calls s1 @ cs" by blast
    with navigate_Inr n Inr show ?thesis by fastforce
  qed
qed

lemma check_miss_starts_with_goto:
  assumes "state s (cache_key t d) = None" "check_available_appointments P t d s = (r, s')"
  shows "\<exists>cs. calls s' = calls s @ Goto (url s) # cs"
proof (cases r)
  case (Inl e)
  with assms have "query_flow P t d s = (Inl e, s')" by (simp add: check_miss_Inl)
  then show ?thesis by (rule query_flow_starts_with_goto)
next
  case (Inr slots)
  with assms obtain s4 where "query_flow P t d s = (Inr slots, s4)"
    "s' = s4\<lparr>state := (state s4)(cache_key t d \<mapsto> slots)\<rparr>"
    by (auto simp: check_miss_Inr)
  with query_flow_starts_with_goto [of P t d s "Inr slots" s4] show ?thesis by auto
qed

lemma select_recognized:
  "t \<in> recognized_types \<Longrightarrow> select_try P t = page_click P (text_selector t)"
  by (auto simp: recognized_types_def select_try_def)

lemma select_unknown:
  assumes "t \<notin> recognized_types"
  shows "select_appointment_type_direct_click P t s =
      ((case fst (screenshot P error_screenshot (world s)) of
          Inl e2 \<Rightarrow> Inl e2 | Inr _ \<Rightarrow> Inl (unknown_appointment_type t)),
       s\<lparr>world := snd (screenshot P error_screenshot (world s)),
         calls := calls s @ [Screenshot error_screenshot]\<rparr>)"
  using assms
  by (simp add: recognized_types_def select_appointment_type_direct_click_def select_try_def
        try_except_def raise_def page_screenshot_def invoke_eq split: sum.splits)

text \<open>
  The cache of a new service holds recognized types only, and every query keeps it so:
  a query for another type fails in the second step and stores nothing.
\<close>

lemma recognized_keys_init: "recognized_keys (init u w)"
  by (simp add: recognized_keys_def init_def)

lemma recognized_keys_miss:
  "recognized_keys s \<Longrightarrow> t \<notin> recognized_types \<Longrightarrow> state s (cache_key t d) = None"
  by (cases "state s (cache_key t d)") (auto simp: recognized_keys_def cache_key_def dom_def)

lemma query_flow_Inr_recognized:
  assumes "query_flow P t d s = (Inr r, s')"
  shows "t \<in> recognized_types"
proof (rule ccontr)
  assume "t \<notin> recognized_types"
  then have "\<And>s1. \<exists>e s2. select_appointment_type_direct_click P t s1 = (Inl e, s2)"
    by (simp add: select_unknown split: sum.splits)
  moreover from assms obtain s1 s2 where
    "select_appointment_type_direct_click P t s1 = (Inr (), s2)"
    by (auto simp: query_flow_def andthen_Inr)
  ultimately show False by (metis Inl_Inr_False prod.inject)
qed

lemma recognized_keys_check:
  assumes "recognized_keys s" and "check_available_appointments P t d s = (r, s')"
  shows "recognized_keys s'"
proof (cases "state s (cache_key t d)")
  case (Some cached)
  with assms show ?thesis by (simp add: check_eq)
next
  case None
  show ?thesis
  proof (cases r)
    case (Inl e)
    with None assms(2) have "query_flow P t d s = (Inl e, s')" by (simp add: check_miss_Inl)
    then have "state s' = state s" by (simp add: query_flow_frame)
    with assms(1) show ?thesis by (simp add: recognized_keys_def)
  next
    case (Inr slots)
    with None assms(2) obtain s4 where f: "query_flow P t d s = (Inr slots, s4)"
      and s': "s' = s4\<lparr>state := (state s4)(cache_key t d \<mapsto> slots)\<rparr>"
      by (auto simp: check_miss_Inr)
    from f have "state s4 = state s" by (simp add: query_flow_frame)
    moreover from f have "t \<in> recognized_types" by (rule query_flow_Inr_recognized)
    ultimately show ?thesis using assms(1) s'
      by (auto simp: recognized_keys_def cache_key_def)
  qed
qed

lemma slots_loop_Inr:
  "slots_loop P els acc s = (Inr slots, s') \<Longrightarrow>
     \<exists>new cs. slots = acc @ new \<and> length new = length els \<and>
       calls s' = calls s @ cs \<and> length (filter is_label_read cs) = length els \<and>
       ((\<forall>w v. fst (locator_inner_text P ''.selected-date'' w) = Inr v \<longrightarrow> v = label) \<longrightarrow>
          (\<forall>x \<in> set new. date x = label))"
proof (induction els arbitrary: acc s)
  case Nil
  then show ?case by simp
next
  case (Cons el els)
  from Cons.prems obtain time_text s1 date_text s2 where
    t: "element_inner_text P el s = (Inr time_text, s1)" and
    d: "page_locator_inner_text P ''.selected-date'' s1 = (Inr date_text, s2)" and
    rest: "slots_loop P els (acc @ [\<lparr>date = date_text, time = time_text\<rparr>]) s2 = (Inr slots, s')"
    by (auto split: prod.splits sum.splits)
  from Cons.IH [OF rest] obtain new cs where
    ih: "slots = (acc @ [\<lparr>date = date_text, time = time_text\<rparr>]) @ new" "length new = length els"
      "calls s' = calls s2 @ cs" "length (filter is_label_read cs) = length els"
      "(\<forall>w v. fst (locator_inner_text P ''.selected-date'' w) = Inr v \<longrightarrow> v = label) \<longrightarrow>
          (\<forall>x \<in> set new. date x = label)"
    by blast
  from t have c1: "calls s1 = calls s @ [InnerText el]"
    by (auto simp: element_inner_text_def invoke_eq)
  from d have c2: "calls s2 = calls s1 @ [LocatorInnerText ''.selected-date'']"
    and dv: "fst (locator_inner_text P ''.selected-date'' (world s1)) = Inr date_text"
    by (auto simp: page_locator_inner_text_def invoke_eq)
  let ?new = "\<lparr>date = date_text, time = time_text\<rparr> # new"
  let ?cs = "InnerText el # LocatorInnerText ''.selected-date'' # cs"
  have "slots = acc @ ?new" using ih(1) by simp
  moreover have "length ?new = length (el # els)" using ih(2) by simp
  moreover have "calls s' = calls s @ ?cs" using ih(3) c1 c2 by simp
  moreover have "length (filter is_label_read ?cs) = length (el # els)" using ih(4) by simp
  moreover have "(\<forall>w v. fst (locator_inner_text P ''.selected-date'' w) = Inr v \<longrightarrow> v = label) \<longrightarrow>
          (\<forall>x \<in> set ?new. date x = label)"
    using ih(5) dv by auto
  ultimately show ?case by blast
qed

lemma slots_loop_total:
  assumes "\<forall>el \<in> set els. \<forall>w. fst (inner_text P el w) = Inr (txt el)"
    and "\<forall>w. fst (locator_inner_text P ''.selected-date'' w) = Inr label"
  shows "\<exists>s'. slots_loop P els acc s =
           (Inr (acc @ map (\<lambda>el. \<lparr>date = label, time = txt el\<rparr>) els), s')"
  using assms
proof (induction els arbitrary: acc s)
  case Nil
  then show ?case by simp
next
  case (Cons el els)
  let ?s1 = "s\<lparr>world := snd (inner_text P el (world s)), calls := calls s @ [InnerText el]\<rparr>"
  let ?s2 = "?s1\<lparr>world := snd (locator_inner_text P ''.selected-date'' (world ?s1)),
                   calls := calls ?s1 @ [LocatorInnerText ''.selected-date'']\<rparr>"
  from Cons.prems have t: "element_inner_text P el s = (Inr (txt el), ?s1)"
    by (simp add: element_inner_text_def invoke_eq)
  from Cons.prems have d: "page_locator_inner_text P ''.selected-date'' ?s1 = (Inr label, ?s2)"
    by (simp add: page_locator_inner_text_def invoke_eq)
  from Cons.prems have "\<forall>el \<in> set els. \<forall>w. fst (inner_text P el w) = Inr (txt el)" by simp
  from Cons.IH [OF this Cons.prems(2), of "acc @ [\<lparr>date = label, time = txt el\<rparr>]" ?s2]
  obtain s' where "slots_loop P els (acc @ [\<lparr>date = label, time = txt el\<rparr>]) ?s2 =
      (Inr ((acc @ [\<lparr>date = label, time = txt el\<rparr>]) @ map (\<lambda>el. \<lparr>date = label, time = txt el\<rparr>) els), s')"
    by blast
  with t d show ?case by simp
qed

lemma get_available_slots_Inr:
  assumes "get_available_slots P s = (Inr slots, s')"
  shows "\<exists>sw es sq. page_wait_for_selector P ''.time-slot'' 10000 s = (Inr (), sw) \<and>
           page_query_selector_all P ''.time-slot'' sw = (Inr es, sq) \<and>
           slots_loop P (take 5 es) [] sq = (Inr slots, s')"
  using assms by (auto simp: get_available_slots_def try_except_Inr get_slots_try_def andthen_Inr)

lemma check_Inr_state:
  assumes "check_available_appointments P t d s = (Inr r, s')"
  shows "state s' (cache_key t d) = Some r \<and> (\<forall>k. k \<noteq> cache_key t d \<longrightarrow> state s' k = state s k)"
proof (cases "state s (cache_key t d)")
  case (Some cached)
  with assms show ?thesis by (auto simp: check_eq)
next
  case None
  with assms obtain s4 where "query_flow P t d s = (Inr r, s4)"
    "s' = s4\<lparr>state := (state s4)(cache_key t d \<mapsto> r)\<rparr>"
    by (auto simp: check_miss_Inr)
  with query_flow_frame [of P t d s "Inr r" s4] show ?thesis by simp
qed


lemma step_Inl_ends_with_screenshot:
  "try_except P body s = (Inl e, s') \<Longrightarrow> \<exists>pre. calls s' = pre @ [Screenshot error_screenshot]"
  by (auto simp: try_except_Inl)

lemma set_date_Inl_ends_with_screenshot:
  "set_date_preference P d s = (Inl e, s') \<Longrightarrow> \<exists>pre. calls s' = pre @ [Screenshot error_screenshot]"
  by (cases d)
     (auto simp: set_date_preference_def return_def try_except_Inl split: if_splits)

lemma query_flow_Inl_ends_with_screenshot:
  assumes "query_flow P t d s = (Inl e, s')"
  shows "\<exists>pre. calls s' = pre @ [Screenshot error_screenshot]"
proof -
  from assms consider
      (nav) "navigate_to_scheduling_page P s = (Inl e, s')"
    | (sel) s1 where "select_appointment_type_direct_click P t s1 = (Inl e, s')"
    | (dat) s2 where "(if truthy d then set_date_preference P d else return ()) s2 = (Inl e, s')"
    | (get) s3 where "get_available_slots P s3 = (Inl e, s')"
    unfolding query_flow_def by (auto simp: andthen_Inl)
  then show ?thesis
  proof cases
    case nav
    then show ?thesis
      unfolding navigate_to_scheduling_page_def by (rule step_Inl_ends_with_screenshot)
  next
    case sel
    then show ?thesis
      unfolding select_appointment_type_direct_click_def by (rule step_Inl_ends_with_screenshot)
  next
    case dat
    then have "set_date_preference P d s2 = (Inl e, s')"
      by (simp add: return_def split: if_splits)
    then show ?thesis by (rule set_date_Inl_ends_with_screenshot)
  next
    case get
    then show ?thesis
      unfolding get_available_slots_def by (rule step_Inl_ends_with_screenshot)
  qed
qed

lemma try_except_reraise:
  "body s = (Inl e, s1) \<Longrightarrow>
   fst (try_except P body s) =
     (case fst (screenshot P error_screenshot (world s1)) of Inl e2 \<Rightarrow> Inl e2 | Inr _ \<Rightarrow> Inl e)"
  by (simp add: try_except_def page_screenshot_def invoke_eq split: sum.splits)

lemma navigate_succeeds:
  assumes "\<forall>w. fst (goto P (url s) w) = Inr ()"
    and "\<forall>w. fst (wait_for_load_state P ''networkidle'' w) = Inr ()"
  shows "\<exists>s'. navigate_to_scheduling_page P s = (Inr (), s')"
  using assms
  by (simp add: navigate_to_scheduling_page_def try_except_def navigate_try_def andthen_def
        page_goto_def page_wait_for_load_state_def invoke_eq)

lemma select_new_succeeds:
  assumes "\<forall>w. fst (click P (text_selector ''New appointment'') w) = Inr ()"
  shows "\<exists>s'. select_appointment_type_direct_click P ''New appointment'' s = (Inr (), s')"
  using assms
  by (simp add: select_appointment_type_direct_click_def try_except_def select_try_def
        page_click_def invoke_eq)

lemma get_available_slots_succeeds:
  assumes "\<forall>w. fst (wait_for_selector P ''.time-slot'' 10000 w) = Inr ()"
    and "\<forall>w. fst (query_selector_all P ''.time-slot'' w) = Inr es"
    and "\<forall>el \<in> set (take 5 es). \<forall>w. fst (inner_text P el w) = Inr (txt el)"
    and "\<forall>w. fst (locator_inner_text P ''.selected-date'' w) = Inr label"
  shows "\<exists>s'. get_available_slots P s =
           (Inr (map (\<lambda>el. \<lparr>date = label, time = txt el\<rparr>) (take 5 es)), s')"
proof -
  let ?sw = "s\<lparr>world := snd (wait_for_selector P ''.time-slot'' 10000 (world s)),
               calls := calls s @ [WaitForSelector ''.time-slot'' 10000]\<rparr>"
  let ?sq = "?sw\<lparr>world := snd (query_selector_all P ''.time-slot'' (world ?sw)),
                 calls := calls ?sw @ [QuerySelectorAll ''.time-slot'']\<rparr>"
  from assms(1) have w: "page_wait_for_selector P ''.time-slot'' 10000 s = (Inr (), ?sw)"
    by (simp add: page_wait_for_selector_def invoke_eq)
  from assms(2) have q: "page_query_selector_all P ''.time-slot'' ?sw = (Inr es, ?sq)"
    by (simp add: page_query_selector_all_def invoke_eq)
  from slots_loop_total [OF assms(3,4), of "[]" ?sq] obtain s' where
    l: "slots_loop P (take 5 es) [] ?sq =
          (Inr (map (\<lambda>el. \<lparr>date = label, time = txt el\<rparr>) (take 5 es)), s')"
    by auto
  from w q l have "get_available_slots P s =
      (Inr (map (\<lambda>el. \<lparr>date = label, time = txt el\<rparr>) (take 5 es)), s')"
    by (simp add: get_available_slots_def try_except_def get_slots_try_def andthen_def)
  then show ?thesis by blast
qed

text \<open>
  The loop against \<open>slot_reads\<close>: a loop that returns has appended one slot for each
  pair of reads, with the texts read; the loop returns when each of the reads
  succeeds.
\<close>

lemma length_slot_reads: "length (slot_reads P els w) = length els"
  by (induction els arbitrary: w) (auto split: prod.splits)

lemma slots_loop_reads:
  "slots_loop P els acc s = (Inr slots, s') \<Longrightarrow>
     \<exists>new. slots = acc @ new \<and>
       map (\<lambda>x. (Inr (time x), Inr (date x))) new = slot_reads P els (world s)"
proof (induction els arbitrary: acc s)
  case Nil
  then show ?case by simp
next
  case (Cons el els)
  from Cons.prems obtain time_text s1 date_text s2 where
    t: "element_inner_text P el s = (Inr time_text, s1)" and
    d: "page_locator_inner_text P ''.selected-date'' s1 = (Inr date_text, s2)" and
    rest: "slots_loop P els (acc @ [\<lparr>date = date_text, time = time_text\<rparr>]) s2 = (Inr slots, s')"
    by (auto split: prod.splits sum.splits)
  from Cons.IH [OF rest] obtain new where
    ih: "slots = (acc @ [\<lparr>date = date_text, time = time_text\<rparr>]) @ new"
      "map (\<lambda>x. (Inr (time x), Inr (date x))) new = slot_reads P els (world s2)"
    by blast
  from t have t': "inner_text P el (world s) = (Inr time_text, world s1)"
    by (auto simp: element_inner_text_def invoke_eq intro: prod_eqI)
  from d have d': "locator_inner_text P ''.selected-date'' (world s1) = (Inr date_text, world s2)"
    by (auto simp: page_locator_inner_text_def invoke_eq intro: prod_eqI)
  let ?new = "\<lparr>date = date_text, time = time_text\<rparr> # new"
  have "slots = acc @ ?new" using ih(1) by simp
  moreover have "map (\<lambda>x. (Inr (time x), Inr (date x))) ?new = slot_reads P (el # els) (world s)"
    using ih(2) t' d' by simp
  ultimately show ?case by blast
qed

lemma slots_loop_succeeds:
  "(\<forall>(time_read, label_read) \<in> set (slot_reads P els (world s)).
       \<not> isl time_read \<and> \<not> isl label_read) \<Longrightarrow>
   \<exists>slots s'. slots_loop P els acc s = (Inr slots, s')"
proof (induction els arbitrary: acc s)
  case Nil
  then show ?case by simp
next
  case (Cons el els)
  obtain rt w1 where t: "inner_text P el (world s) = (rt, w1)"
    by (cases "inner_text P el (world s)")
  obtain rl w2 where d: "locator_inner_text P ''.selected-date'' w1 = (rl, w2)"
    by (cases "locator_inner_text P ''.selected-date'' w1")
  from Cons.prems t d have ok: "\<not> isl rt" "\<not> isl rl"
    and rest: "\<forall>(time_read, label_read) \<in> set (slot_reads P els w2).
       \<not> isl time_read \<and> \<not> isl label_read"
    by auto
  from ok obtain time_text date_text where v: "rt = Inr time_text" "rl = Inr date_text"
    by (cases rt; cases rl) auto
  let ?s1 = "s\<lparr>world := w1, calls := calls s @ [InnerText el]\<rparr>"
  let ?s2 = "?s1\<lparr>world := w2, calls := calls ?s1 @ [LocatorInnerText ''.selected-date'']\<rparr>"
  from t v have a: "element_inner_text P el s = (Inr time_text, ?s1)"
    by (simp add: element_inner_text_def invoke_eq)
  from d v have b: "page_locator_inner_text P ''.selected-date'' ?s1 = (Inr date_text, ?s2)"
    by (simp add: page_locator_inner_text_def invoke_eq)
  from rest have "\<forall>(time_read, label_read) \<in> set (slot_reads P els (world ?s2)).
       \<not> isl time_read \<and> \<not> isl label_read" by simp
  from Cons.IH [OF this, of "acc @ [\<lparr>date = date_text, time = time_text\<rparr>]"]
  obtain slots s' where
    "slots_loop P els (acc @ [\<lparr>date = date_text, time = time_text\<rparr>]) ?s2 = (Inr slots, s')"
    by blast
  with a b show ?case by simp
qed

lemma reads_stable_times:
  "map (\<lambda>x. (Inr (time x), Inr (date x))) slots = slot_reads P els w \<Longrightarrow>
   (\<forall>el w v. fst (inner_text P el w) = Inr v \<longrightarrow> v = txt el) \<Longrightarrow>
   map time slots = map txt els"
proof (induction els arbitrary: slots w)
  case Nil
  then show ?case by simp
next
  case (Cons el els)
  obtain rt w1 where t: "inner_text P el w = (rt, w1)" by (cases "inner_text P el w")
  obtain rl w2 where d: "locator_inner_text P ''.selected-date'' w1 = (rl, w2)"
    by (cases "locator_inner_text P ''.selected-date'' w1")
  from Cons.prems(1) t d obtain x xs where
    s: "slots = x # xs" and x: "rt = Inr (time x)"
    and xs: "map (\<lambda>x. (Inr (time x), Inr (date x))) xs = slot_reads P els w2"
    by (cases slots) auto
  from Cons.prems(2) t x have "time x = txt el" by (metis fst_conv)
  moreover from Cons.IH [OF xs Cons.prems(2)] have "map time xs = map txt els" .
  ultimately show ?case using s by simp
qed

lemma reads_same_label:
  "map (\<lambda>x. (Inr (time x), Inr (date x))) slots = rs \<Longrightarrow>
   (\<forall>(time_read, label_read) \<in> set rs. label_read = Inr label) \<Longrightarrow>
   (\<forall>x \<in> set slots. date x = label)"
  by auto

lemma get_available_slots_reads:
  assumes "get_available_slots P s = (Inr slots, s')"
  shows "\<exists>w1 es w2. wait_for_selector P ''.time-slot'' 10000 (world s) = (Inr (), w1) \<and>
           query_selector_all P ''.time-slot'' w1 = (Inr es, w2) \<and>
           map (\<lambda>x. (Inr (time x), Inr (date x))) slots = slot_reads P (take 5 es) w2 \<and>
           length slots = min 5 (length es) \<and>
           length (filter is_label_read (drop (length (calls s)) (calls s'))) = length slots"
proof -
  from get_available_slots_Inr [OF assms] obtain sw es sq where
    w: "page_wait_for_selector P ''.time-slot'' 10000 s = (Inr (), sw)" and
    q: "page_query_selector_all P ''.time-slot'' sw = (Inr es, sq)" and
    l: "slots_loop P (take 5 es) [] sq = (Inr slots, s')" by blast
  from w have w': "wait_for_selector P ''.time-slot'' 10000 (world s) = (Inr (), world sw)"
    by (auto simp: page_wait_for_selector_def invoke_eq intro: prod_eqI)
  from q have q': "query_selector_all P ''.time-slot'' (world sw) = (Inr es, world sq)"
    by (auto simp: page_query_selector_all_def invoke_eq intro: prod_eqI)
  from w q have c: "calls sq = calls s @ [WaitForSelector ''.time-slot'' 10000, QuerySelectorAll ''.time-slot'']"
    by (auto simp: page_wait_for_selector_def page_query_selector_all_def invoke_eq)
  from slots_loop_reads [OF l] have
    r: "map (\<lambda>x. (Inr (time x), Inr (date x))) slots = slot_reads P (take 5 es) (world sq)"
    by simp
  then have "length (map (\<lambda>x. (Inr (time x) :: exn + string, Inr (date x) :: exn + string)) slots) =
      length (slot_reads P (take 5 es) (world sq))" by simp
  then have len: "length slots = min 5 (length es)" by (simp add: length_slot_reads)
  from slots_loop_Inr [OF l, of "[]"] obtain new cs where
    n: "slots = [] @ new" "calls s' = calls sq @ cs"
       "length (filter is_label_read cs) = length (take 5 es)"
    by blast
  from c n(2) have "drop (length (calls s)) (calls s') =
      WaitForSelector ''.time-slot'' 10000 # QuerySelectorAll ''.time-slot'' # cs" by simp
  with n(3) len have "length (filter is_label_read (drop (length (calls s)) (calls s'))) = length slots"
    by simp
  with w' q' r len show ?thesis by blast
qed

lemma get_available_slots_returns:
  assumes "wait_for_selector P ''.time-slot'' 10000 (world s) = (Inr (), w1)"
    and "query_selector_all P ''.time-slot'' w1 = (Inr es, w2)"
    and "\<forall>(time_read, label_read) \<in> set (slot_reads P (take 5 es) w2).
           \<not> isl time_read \<and> \<not> isl label_read"
  shows "\<exists>slots s'. get_available_slots P s = (Inr slots, s') \<and>
           map (\<lambda>x. (Inr (time x), Inr (date x))) slots = slot_reads P (take 5 es) w2 \<and>
           length slots = min 5 (length es)"
proof -
  let ?sw = "s\<lparr>world := w1, calls := calls s @ [WaitForSelector ''.time-slot'' 10000]\<rparr>"
  let ?sq = "?sw\<lparr>world := w2, calls := calls ?sw @ [QuerySelectorAll ''.time-slot'']\<rparr>"
  from assms(1) have w: "page_wait_for_selector P ''.time-slot'' 10000 s = (Inr (), ?sw)"
    by (simp add: page_wait_for_selector_def invoke_eq)
  from assms(2) have q: "page_query_selector_all P ''.time-slot'' ?sw = (Inr es, ?sq)"
    by (simp add: page_query_selector_all_def invoke_eq)
  from assms(3) have "\<forall>(time_read, label_read) \<in> set (slot_reads P (take 5 es) (world ?sq)).
           \<not> isl time_read \<and> \<not> isl label_read" by simp
  from slots_loop_succeeds [OF this, of "[]"] obtain slots s' where
    l: "slots_loop P (take 5 es) [] ?sq = (Inr slots, s')" by blast
  from w q l have g: "get_available_slots P s = (Inr slots, s')"
    by (simp add: get_available_slots_def try_except_def get_slots_try_def andthen_def)
  from get_available_slots_reads [OF g] assms(1,2) g show ?thesis by auto
qed

lemma check_miss_steps:
  assumes "state s (cache_key t d) = None"
    and "check_available_appointments P t d s = (Inr r, s'')"
  shows "\<exists>s1 s2 sg s4.
           navigate_to_scheduling_page P s = (Inr (), s1) \<and>
           select_appointment_type_direct_click P t s1 = (Inr (), s2) \<and>
           (if truthy d then set_date_preference P d else return ()) s2 = (Inr (), sg) \<and>
           get_available_slots P sg = (Inr r, s4)"
proof -
  from assms obtain s4 where "query_flow P t d s = (Inr r, s4)"
    by (auto simp: check_miss_Inr)
  then show ?thesis
    unfolding query_flow_def by (auto simp: andthen_Inr)
qed

subsection \<open>C1: cache idempotence\<close>

text \<open>
  Claim C1. When a call of \<open>check_available_appointments\<close> has returned a slot list, a
  second call with the same arguments on the resulting service returns the same list
  and leaves the service exactly as it was: the cache, the world and the list of page
  calls are unchanged, whatever the page would have answered. When the first call was
  a cache miss it made exactly one navigation: its page calls start with \<open>goto(url)\<close>
  and \<open>wait_for_load_state('networkidle')\<close>, and no later call of it is a navigation.
\<close>

theorem cache_idempotence:
  assumes "check_available_appointments P t d s = (Inr slots, s1)"
  shows "check_available_appointments P' t d s1 = (Inr slots, s1) \<and>
         (state s (cache_key t d) = None \<longrightarrow>
            (\<exists>cs. calls s1 = calls s @ Goto (url s) # WaitForLoadState ''networkidle'' # cs \<and>
                  (\<forall>c \<in> set cs. \<not> is_navigation c)))"
proof (cases "state s (cache_key t d)")
  case (Some cached)
  with assms have "s1 = s" "cached = slots" by (simp_all add: check_eq)
  with Some show ?thesis by (simp add: check_eq)
next
  case None
  with assms obtain s4 where flow: "query_flow P t d s = (Inr slots, s4)"
    and s1: "s1 = s4\<lparr>state := (state s4)(cache_key t d \<mapsto> slots)\<rparr>"
    by (auto simp: check_miss_Inr)
  from s1 have again: "check_available_appointments P' t d s1 = (Inr slots, s1)"
    by (simp add: check_eq)
  let ?rest = "andthen (select_appointment_type_direct_click P t) (\<lambda>_.
      andthen (if truthy d then set_date_preference P d else return ()) (\<lambda>_.
      get_available_slots P))"
  from flow obtain sn where n: "navigate_to_scheduling_page P s = (Inr (), sn)"
    and rest: "?rest sn = (Inr slots, s4)"
    by (auto simp: query_flow_def andthen_Inr [of "navigate_to_scheduling_page P"])
  from only_callsD [OF only_calls_after_navigation rest]
  obtain cs where "calls s4 = calls sn @ cs" "\<forall>c \<in> set cs. \<not> is_navigation c" by blast
  with navigate_Inr [OF n] s1
  have "calls s1 = calls s @ Goto (url s) # WaitForLoadState ''networkidle'' # cs \<and>
        (\<forall>c \<in> set cs. \<not> is_navigation c)" by simp
  with again show ?thesis by blast
qed

text \<open>
  On the example page the first query returns the three slots; the second one is
  answered from the cache even though the page is by then unreachable.
\<close>

theorem cache_idempotence_witness:
  "check_available_appointments (static_page example_site) ''New appointment'' None (example_service ()) =
     (Inr example_slots,
      snd (check_available_appointments (static_page example_site) ''New appointment'' None (example_service ())))
   \<and> state (example_service ()) (cache_key ''New appointment'' None) = None
   \<and> check_available_appointments (static_page closed_site) ''New appointment'' None
        (snd (check_available_appointments (static_page example_site) ''New appointment'' None (example_service ()))) =
     (Inr example_slots,
      snd (check_available_appointments (static_page example_site) ''New appointment'' None (example_service ())))
   \<and> (\<exists>cs. calls (snd (check_available_appointments (static_page example_site) ''New appointment'' None
                     (example_service ()))) =
            calls (example_service ()) @ Goto (url (example_service ())) # WaitForLoadState ''networkidle'' # cs
          \<and> (\<forall>c \<in> set cs. \<not> is_navigation c))"
proof -
  have h: "check_available_appointments (static_page example_site) ''New appointment'' None (example_service ()) =
     (Inr example_slots,
      snd (check_available_appointments (static_page example_site) ''New appointment'' None (example_service ())))"
    by (simp add: run_defs upt_rec)
  have m: "state (example_service ()) (cache_key ''New appointment'' None) = None"
    by (simp add: run_defs)
  from cache_idempotence [OF h, of "static_page closed_site"] h m show ?thesis by blast
qed

subsection \<open>C2: an unknown appointment type\<close>

text \<open>
  Claim C2, as the code has it. The type is checked in the second step, inside the
  \<open>try\<close> block of \<open>select_appointment_type_direct_click\<close>, after
  \<open>navigate_to_scheduling_page\<close> has run. For an appointment type outside the recognized
  set, on a service whose cache holds recognized types only, the query fails and
  stores nothing; its first page call is \<open>goto(url)\<close>, its last page call is the error
  screenshot, and no call in between is a click or a screenshot. When the navigation
  and the screenshot both succeed, the exception is the \<open>ValueError\<close> for the unknown
  type.
\<close>

theorem unknown_type_fails_after_navigation:
  assumes "t \<notin> recognized_types" and "recognized_keys s"
  shows "\<exists>e s' cs. check_available_appointments P t d s = (Inl e, s') \<and>
           state s' = state s \<and>
           calls s' = calls s @ Goto (url s) # cs @ [Screenshot error_screenshot] \<and>
           (\<forall>c \<in> set cs. \<not> is_click c \<and> \<not> is_screenshot c) \<and>
           (\<forall>s1. navigate_to_scheduling_page P s = (Inr (), s1) \<and>
                 fst (screenshot P error_screenshot (world s1)) = Inr () \<longrightarrow>
                 e = unknown_appointment_type t)"
proof -
  from assms have miss: "state s (cache_key t d) = None" by (rule recognized_keys_miss [rotated])
  obtain rn s1 where n: "navigate_to_scheduling_page P s = (rn, s1)"
    by (cases "navigate_to_scheduling_page P s")
  show ?thesis
  proof (cases rn)
    case (Inl e)
    with n have "query_flow P t d s = (Inl e, s1)" by (simp add: query_flow_def andthen_def)
    with miss have run: "check_available_appointments P t d s = (Inl e, s1)"
      by (simp add: check_miss_Inl)
    from navigate_Inl n Inl have
      "(calls s1 = calls s @ Goto (url s) # [] @ [Screenshot error_screenshot] \<or>
        calls s1 = calls s @ Goto (url s) # [WaitForLoadState ''networkidle''] @ [Screenshot error_screenshot])"
      and "state s1 = state s" by fastforce+
    with run n Inl show ?thesis by fastforce
  next
    case (Inr v)
    let ?e = "case fst (screenshot P error_screenshot (world s1)) of
          Inl e2 \<Rightarrow> e2 | Inr _ \<Rightarrow> unknown_appointment_type t"
    let ?s' = "s1\<lparr>world := snd (screenshot P error_screenshot (world s1)),
         calls := calls s1 @ [Screenshot error_screenshot]\<rparr>"
    from assms(1) have "select_appointment_type_direct_click P t s1 = (Inl ?e, ?s')"
      by (simp add: select_unknown split: sum.splits)
    with n Inr have "query_flow P t d s = (Inl ?e, ?s')"
      by (simp add: query_flow_def andthen_def)
    with miss have run: "check_available_appointments P t d s = (Inl ?e, ?s')"
      by (simp add: check_miss_Inl)
    from navigate_Inr n Inr have c: "calls s1 = calls s @ [Goto (url s), WaitForLoadState ''networkidle'']"
      and st: "state s1 = state s" by fastforce+
    have "calls ?s' = calls s @ Goto (url s) # [WaitForLoadState ''networkidle''] @ [Screenshot error_screenshot]"
      using c by simp
    moreover have "\<forall>c \<in> set [WaitForLoadState ''networkidle'' :: 'b call]. \<not> is_click c \<and> \<not> is_screenshot c"
      by simp
    moreover have "\<forall>s1'. navigate_to_scheduling_page P s = (Inr (), s1') \<and>
                 fst (screenshot P error_screenshot (world s1')) = Inr () \<longrightarrow>
                 ?e = unknown_appointment_type t"
      using n by auto
    moreover have "state ?s' = state s" using st by simp
    ultimately show ?thesis using run by blast
  qed
qed

text \<open>
  On the example page, \<open>Cleaning\<close> is not recognized and the query raises the
  \<open>ValueError\<close>.
\<close>

theorem unknown_type_fails_after_navigation_witness:
  "''Cleaning'' \<notin> recognized_types \<and> recognized_keys (example_service ()) \<and>
   fst (check_available_appointments (static_page example_site) ''Cleaning'' None (example_service ())) =
     Inl (unknown_appointment_type ''Cleaning'')"
proof -
  let ?P = "static_page example_site :: (unit, nat) page"
  let ?s = "example_service () :: (unit, nat) SchedulingService"
  have t: "''Cleaning'' \<notin> recognized_types" by (simp add: recognized_types_def)
  have k: "recognized_keys ?s" by (simp add: recognized_keys_def example_service_def init_def)
  have n: "navigate_to_scheduling_page ?P ?s = (Inr (), snd (navigate_to_scheduling_page ?P ?s))"
    by (simp add: run_defs)
  have c: "fst (screenshot ?P error_screenshot (world (snd (navigate_to_scheduling_page ?P ?s)))) = Inr ()"
    by (simp add: static_page_def example_site_def)
  from unknown_type_fails_after_navigation [OF t k, of ?P None] obtain e s' where
    run: "check_available_appointments ?P ''Cleaning'' None ?s = (Inl e, s')" and
    err: "\<forall>s1. navigate_to_scheduling_page ?P ?s = (Inr (), s1) \<and>
                 fst (screenshot ?P error_screenshot (world s1)) = Inr () \<longrightarrow>
                 e = unknown_appointment_type ''Cleaning''"
    by blast
  from err n c have "e = unknown_appointment_type ''Cleaning''" by blast
  with run t k show ?thesis by simp
qed

text \<open>
  The claim as written (no navigation and no screenshot for an unknown type) fails on
  the example page: the query for \<open>Cleaning\<close> loads the page and takes a screenshot.
\<close>

theorem unknown_type_counterexample:
  "''Cleaning'' \<notin> recognized_types \<and>
   calls (snd (check_available_appointments (static_page example_site) ''Cleaning'' None
                 (example_service ()))) =
     [Goto ''https://care.425dental.com/schedule-appointments/'',
      WaitForLoadState ''networkidle'',
      Screenshot ''error_screenshot.png'']"
  by (simp add: recognized_types_def run_defs)

subsection \<open>C3: a failed query is not cached\<close>

text \<open>
  Claim C3. When a query fails, whichever step failed, the cache is what it was before
  the call and has no entry for the key; the next call with the same key runs the
  flow again, starting with \<open>goto(url)\<close>.
\<close>

theorem failure_not_cached:
  assumes "check_available_appointments P t d s = (Inl e, s1)"
  shows "state s1 = state s \<and> state s1 (cache_key t d) = None \<and>
         (\<exists>r s2 cs. check_available_appointments P' t d s1 = (r, s2) \<and>
                    calls s2 = calls s1 @ Goto (url s1) # cs)"
proof -
  from assms have miss: "state s (cache_key t d) = None"
    by (cases "state s (cache_key t d)") (simp_all add: check_eq)
  with assms have "query_flow P t d s = (Inl e, s1)" by (simp add: check_miss_Inl)
  then have same: "state s1 = state s" by (simp add: query_flow_frame)
  with miss have miss1: "state s1 (cache_key t d) = None" by simp
  obtain r s2 where run: "check_available_appointments P' t d s1 = (r, s2)"
    by (cases "check_available_appointments P' t d s1")
  from check_miss_starts_with_goto [OF miss1 run] run same miss1 show ?thesis by blast
qed

text \<open>
  On a page that cannot be loaded the query fails with the navigation error, and the
  second attempt navigates again.
\<close>

theorem failure_not_cached_witness:
  "check_available_appointments (static_page offline_site) ''New appointment'' None (example_service ()) =
     (Inl (PlaywrightError ''net::ERR_CONNECTION_REFUSED''),
      snd (check_available_appointments (static_page offline_site) ''New appointment'' None (example_service ())))
   \<and> state (snd (check_available_appointments (static_page offline_site) ''New appointment'' None
                   (example_service ()))) (cache_key ''New appointment'' None) = None
   \<and> (\<exists>r s2 cs.
        check_available_appointments (static_page offline_site) ''New appointment'' None
          (snd (check_available_appointments (static_page offline_site) ''New appointment'' None
                  (example_service ()))) = (r, s2) \<and>
        calls s2 =
          calls (snd (check_available_appointments (static_page offline_site) ''New appointment'' None
                        (example_service ()))) @
          Goto (url (snd (check_available_appointments (static_page offline_site) ''New appointment'' None
                        (example_service ())))) # cs)"
proof -
  have h: "check_available_appointments (static_page offline_site) ''New appointment'' None (example_service ()) =
     (Inl (PlaywrightError ''net::ERR_CONNECTION_REFUSED''),
      snd (check_available_appointments (static_page offline_site) ''New appointment'' None (example_service ())))"
    by (simp add: run_defs)
  from failure_not_cached [OF h, of "static_page offline_site"] h show ?thesis by blast
qed

subsection \<open>C4: at most five slots\<close>

text \<open>
  Claim C4, as the code has it. Let the wait for \<open>.time-slot\<close> succeed and
  \<open>query_selector_all\<close> return the elements \<open>es\<close>, in document order, and let each read that
  the loop makes for the first five of them succeed. Then \<open>get_available_slots\<close> returns,
  without error, one slot for each of the first five elements of \<open>es\<close>, in that order,
  with the texts read for it: \<open>min 5 (length es)\<close> slots, so exactly five when more than
  five elements match, and all of them when fewer than five do. A query for a key that
  is not cached, when it returns, returns such a list for the elements that its own
  scrape found after the first three steps. When the text of an element does not
  depend on the world, the times of the slots are the texts of the first five
  elements.
\<close>

theorem result_bounding:
  "(wait_for_selector P ''.time-slot'' 10000 (world s) = (Inr (), w1) \<and>
    query_selector_all P ''.time-slot'' w1 = (Inr es, w2) \<and>
    (\<forall>(time_read, label_read) \<in> set (slot_reads P (take 5 es) w2).
        \<not> isl time_read \<and> \<not> isl label_read) \<longrightarrow>
      (\<exists>slots s'. get_available_slots P s = (Inr slots, s') \<and>
         length slots = min 5 (length es) \<and>
         (5 < length es \<longrightarrow> length slots = 5) \<and>
         map (\<lambda>x. (Inr (time x), Inr (date x))) slots = slot_reads P (take 5 es) w2 \<and>
         ((\<forall>el w v. fst (inner_text P el w) = Inr v \<longrightarrow> v = txt el) \<longrightarrow>
            map time slots = map txt (take 5 es)))) \<and>
   (state s (cache_key t d) = None \<and>
    check_available_appointments P t d s = (Inr r, s'') \<longrightarrow>
      (\<exists>s1 s2 sg wq found w3.
         navigate_to_scheduling_page P s = (Inr (), s1) \<and>
         select_appointment_type_direct_click P t s1 = (Inr (), s2) \<and>
         (if truthy d then set_date_preference P d else return ()) s2 = (Inr (), sg) \<and>
         wait_for_selector P ''.time-slot'' 10000 (world sg) = (Inr (), wq) \<and>
         query_selector_all P ''.time-slot'' wq = (Inr found, w3) \<and>
         length r = min 5 (length found) \<and>
         (5 < length found \<longrightarrow> length r = 5) \<and>
         map (\<lambda>x. (Inr (time x), Inr (date x))) r = slot_reads P (take 5 found) w3 \<and>
         ((\<forall>el w v. fst (inner_text P el w) = Inr v \<longrightarrow> v = txt el) \<longrightarrow>
            map time r = map txt (take 5 found))))"
proof (intro conjI impI)
  assume a: "wait_for_selector P ''.time-slot'' 10000 (world s) = (Inr (), w1) \<and>
    query_selector_all P ''.time-slot'' w1 = (Inr es, w2) \<and>
    (\<forall>(time_read, label_read) \<in> set (slot_reads P (take 5 es) w2).
        \<not> isl time_read \<and> \<not> isl label_read)"
  then have a1: "wait_for_selector P ''.time-slot'' 10000 (world s) = (Inr (), w1)"
    and a2: "query_selector_all P ''.time-slot'' w1 = (Inr es, w2)"
    and a3: "\<forall>(time_read, label_read) \<in> set (slot_reads P (take 5 es) w2).
        \<not> isl time_read \<and> \<not> isl label_read"
    by blast+
  from get_available_slots_returns [OF a1 a2 a3] obtain slots s' where g: "get_available_slots P s = (Inr slots, s')"
    and r: "map (\<lambda>x. (Inr (time x), Inr (date x))) slots = slot_reads P (take 5 es) w2"
    and len: "length slots = min 5 (length es)"
    by blast
  from len have five: "5 < length es \<longrightarrow> length slots = 5" by simp
  have "(\<forall>el w v. fst (inner_text P el w) = Inr v \<longrightarrow> v = txt el) \<longrightarrow>
            map time slots = map txt (take 5 es)"
    using reads_stable_times [OF r] by blast
  with g r len five show "\<exists>slots s'. get_available_slots P s = (Inr slots, s') \<and>
         length slots = min 5 (length es) \<and>
         (5 < length es \<longrightarrow> length slots = 5) \<and>
         map (\<lambda>x. (Inr (time x), Inr (date x))) slots = slot_reads P (take 5 es) w2 \<and>
         ((\<forall>el w v. fst (inner_text P el w) = Inr v \<longrightarrow> v = txt el) \<longrightarrow>
            map time slots = map txt (take 5 es))"
    by blast
next
  assume a: "state s (cache_key t d) = None \<and>
    check_available_appointments P t d s = (Inr r, s'')"
  from a have m: "state s (cache_key t d) = None"
    and run: "check_available_appointments P t d s = (Inr r, s'')" by blast+
  from check_miss_steps [OF m run] obtain s1 s2 sg s4 where
    n: "navigate_to_scheduling_page P s = (Inr (), s1)" and
    c: "select_appointment_type_direct_click P t s1 = (Inr (), s2)" and
    dt: "(if truthy d then set_date_preference P d else return ()) s2 = (Inr (), sg)" and
    g: "get_available_slots P sg = (Inr r, s4)"
    by blast
  from get_available_slots_reads [OF g] obtain wq found w3 where
    w: "wait_for_selector P ''.time-slot'' 10000 (world sg) = (Inr (), wq)" and
    q: "query_selector_all P ''.time-slot'' wq = (Inr found, w3)" and
    rd: "map (\<lambda>x. (Inr (time x), Inr (date x))) r = slot_reads P (take 5 found) w3" and
    len: "length r = min 5 (length found)"
    by blast
  from len have five: "5 < length found \<longrightarrow> length r = 5" by simp
  have st: "(\<forall>el w v. fst (inner_text P el w) = Inr v \<longrightarrow> v = txt el) \<longrightarrow>
            map time r = map txt (take 5 found)"
    using reads_stable_times [OF rd] by blast
  from n c dt w q len five rd st show "\<exists>s1 s2 sg wq found w3.
         navigate_to_scheduling_page P s = (Inr (), s1) \<and>
         select_appointment_type_direct_click P t s1 = (Inr (), s2) \<and>
         (if truthy d then set_date_preference P d else return ()) s2 = (Inr (), sg) \<and>
         wait_for_selector P ''.time-slot'' 10000 (world sg) = (Inr (), wq) \<and>
         query_selector_all P ''.time-slot'' wq = (Inr found, w3) \<and>
         length r = min 5 (length found) \<and>
         (5 < length found \<longrightarrow> length r = 5) \<and>
         map (\<lambda>x. (Inr (time x), Inr (date x))) r = slot_reads P (take 5 found) w3 \<and>
         ((\<forall>el w v. fst (inner_text P el w) = Inr v \<longrightarrow> v = txt el) \<longrightarrow>
            map time r = map txt (take 5 found))"
    by blast
qed

text \<open>
  A page with seven slot elements: the scrape and the uncached query return the first
  five.
\<close>

theorem result_bounding_witness:
  "wait_for_selector (static_page busy_site) ''.time-slot'' 10000 (world (example_service ())) = (Inr (), ())
   \<and> query_selector_all (static_page busy_site) ''.time-slot'' () = (Inr [0, 1, 2, 3, 4, 5, 6], ())
   \<and> (\<exists>slots s'. get_available_slots (static_page busy_site) (example_service ()) = (Inr slots, s') \<and>
         length slots = 5 \<and>
         map time slots = [''9:00 AM'', ''9:30 AM'', ''10:00 AM'', ''10:30 AM'', ''11:00 AM''])
   \<and> state (example_service ()) (cache_key ''New appointment'' None) = None
   \<and> check_available_appointments (static_page busy_site) ''New appointment'' None (example_service ()) =
       (Inr first_five,
        snd (check_available_appointments (static_page busy_site) ''New appointment'' None
               (example_service ())))
   \<and> (\<exists>found. fst (query_selector_all (static_page busy_site) ''.time-slot'' ()) = Inr found \<and>
         length first_five = min 5 (length found) \<and>
         map time first_five = map (\<lambda>i. time_slots busy_site ! i) (take 5 found))"
proof -
  let ?P = "static_page busy_site :: (unit, nat) page"
  let ?s = "example_service () :: (unit, nat) SchedulingService"
  let ?txt = "\<lambda>i. time_slots busy_site ! i"
  have w: "wait_for_selector ?P ''.time-slot'' 10000 (world ?s) = (Inr (), ())"
    by (simp add: static_page_def busy_site_def example_site_def)
  have q: "query_selector_all ?P ''.time-slot'' () = (Inr [0, 1, 2, 3, 4, 5, 6], ())"
    by (simp add: static_page_def busy_site_def example_site_def upt_rec)
  have rd: "\<forall>(time_read, label_read) \<in> set (slot_reads ?P (take 5 [0, 1, 2, 3, 4, 5, 6]) ()).
        \<not> isl time_read \<and> \<not> isl label_read"
    by (simp add: static_page_def busy_site_def example_site_def)
  have st: "\<forall>el (w :: unit) v. fst (inner_text ?P el w) = Inr v \<longrightarrow> v = ?txt el"
    by (simp add: static_page_def)
  have m: "state ?s (cache_key ''New appointment'' None) = None"
    by (simp add: example_service_def init_def)
  have h: "check_available_appointments ?P ''New appointment'' None ?s =
      (Inr first_five, snd (check_available_appointments ?P ''New appointment'' None ?s))"
    by (simp add: run_defs first_five_def upt_rec)
  note T = result_bounding [of ?P ?s "()" "[0, 1, 2, 3, 4, 5, 6]" "()" ?txt
      "''New appointment''" None first_five
      "snd (check_available_appointments ?P ''New appointment'' None ?s)"]
  from T w q rd st obtain slots s' where
    g: "get_available_slots ?P ?s = (Inr slots, s')" and
    len: "length slots = min 5 (length [0, 1, 2, 3, 4, 5, 6 :: nat])" and
    tm: "map time slots = map ?txt (take 5 [0, 1, 2, 3, 4, 5, 6])"
    by blast
  have "map ?txt (take 5 [0, 1, 2, 3, 4, 5, 6]) =
      [''9:00 AM'', ''9:30 AM'', ''10:00 AM'', ''10:30 AM'', ''11:00 AM'']"
    by (simp add: busy_site_def example_site_def)
  with g len tm have part1: "\<exists>slots s'. get_available_slots ?P ?s = (Inr slots, s') \<and>
         length slots = 5 \<and>
         map time slots = [''9:00 AM'', ''9:30 AM'', ''10:00 AM'', ''10:30 AM'', ''11:00 AM'']"
    by auto
  from T m h st obtain wq found w3 where
    q2: "query_selector_all ?P ''.time-slot'' wq = (Inr found, w3)" and
    len2: "length first_five = min 5 (length found)" and
    tm2: "map time first_five = map ?txt (take 5 found)"
    by blast
  from q2 have "fst (query_selector_all ?P ''.time-slot'' ()) = Inr found" by simp
  with len2 tm2 have part2: "\<exists>found. fst (query_selector_all ?P ''.time-slot'' ()) = Inr found \<and>
         length first_five = min 5 (length found) \<and>
         map time first_five = map ?txt (take 5 found)"
    by blast
  from w q part1 m h part2 show ?thesis by blast
qed

text \<open>
  The claim as written fails in two ways. A query for a cached key returns the stored
  list whatever the page shows: here three slots, on a page where seven elements
  match. And with three matching elements and no \<open>.selected-date\<close> element,
  \<open>get_available_slots\<close> raises the error of the label read.
\<close>

theorem result_bounding_counterexample:
  "fst (query_selector_all (static_page busy_site) ''.time-slot'' ()) = Inr [0, 1, 2, 3, 4, 5, 6]
   \<and> fst (check_available_appointments (static_page busy_site) ''New appointment'' None
        (snd (check_available_appointments (static_page example_site) ''New appointment'' None
                (example_service ())))) =
     Inr [\<lparr>date = ''Oct 10, 2025'', time = ''9:00 AM''\<rparr>,
          \<lparr>date = ''Oct 10, 2025'', time = ''9:30 AM''\<rparr>,
          \<lparr>date = ''Oct 10, 2025'', time = ''10:00 AM''\<rparr>]
   \<and> fst (query_selector_all (static_page unlabelled_site) ''.time-slot'' ()) = Inr [0, 1, 2]
   \<and> fst (get_available_slots (static_page unlabelled_site) (example_service ())) =
     Inl (TimeoutError ''Locator.inner_text: Timeout 30000ms exceeded.'')"
  by (simp add: run_defs upt_rec)

subsection \<open>C5: an empty result is a success\<close>

text \<open>
  Claim C5. When the wait for \<open>.time-slot\<close> succeeds and \<open>query_selector_all\<close> then finds
  no element, \<open>get_available_slots\<close> returns the empty list and raises nothing; the wait
  and the query are its only page calls.
\<close>

theorem empty_result_is_success:
  assumes "wait_for_selector P ''.time-slot'' 10000 (world s) = (Inr (), w1)"
    and "query_selector_all P ''.time-slot'' w1 = (Inr [], w2)"
  shows "get_available_slots P s =
           (Inr [], s\<lparr>world := w2,
                      calls := calls s @ [WaitForSelector ''.time-slot'' 10000,
                                          QuerySelectorAll ''.time-slot'']\<rparr>)"
  using assms
  by (simp add: get_available_slots_def try_except_def get_slots_try_def andthen_def
        page_wait_for_selector_def page_query_selector_all_def invoke_eq)

text \<open>
  A page whose last slot disappears between the wait and the query.
\<close>

theorem empty_result_is_success_witness:
  "wait_for_selector live_page ''.time-slot'' 10000 (world (example_service [example_site, sold_out_site])) =
     (Inr (), [sold_out_site])
   \<and> query_selector_all live_page ''.time-slot'' [sold_out_site] = (Inr [], [sold_out_site])
   \<and> fst (get_available_slots live_page (example_service [example_site, sold_out_site])) = Inr []"
proof -
  let ?s = "example_service [example_site, sold_out_site] :: (site list, nat) SchedulingService"
  have w: "wait_for_selector live_page ''.time-slot'' 10000 (world ?s) = (Inr (), [sold_out_site])"
    by (simp add: live_page_def static_page_def example_site_def example_service_def init_def)
  have q: "query_selector_all live_page ''.time-slot'' [sold_out_site] = (Inr [], [sold_out_site])"
    by (simp add: live_page_def static_page_def example_site_def sold_out_site_def)
  from empty_result_is_success [OF w q] w q show ?thesis by simp
qed

subsection \<open>C6: the date of a slot\<close>

text \<open>
  Claim C6, as the code has it. The statement that reads \<open>.selected-date\<close> is inside the
  loop. In a list returned by \<open>get_available_slots\<close>, the date of each slot is the text
  that the label read of that slot's own iteration returned, in the world left by
  reading that slot's element: the slots are, in order, the pairs of \<open>slot_reads\<close> for
  the first five elements found. The label has been read once for each slot returned
  (and not at all for an empty result). The slots carry one common date \<open>label\<close>
  whenever each of these label reads returned \<open>label\<close>.
\<close>

theorem date_label_read_per_slot:
  assumes "get_available_slots P s = (Inr slots, s')"
  shows "\<exists>w1 es w2.
           wait_for_selector P ''.time-slot'' 10000 (world s) = (Inr (), w1) \<and>
           query_selector_all P ''.time-slot'' w1 = (Inr es, w2) \<and>
           map (\<lambda>x. (Inr (time x), Inr (date x))) slots = slot_reads P (take 5 es) w2 \<and>
           length (filter is_label_read (drop (length (calls s)) (calls s'))) = length slots \<and>
           ((\<forall>(time_read, label_read) \<in> set (slot_reads P (take 5 es) w2).
                label_read = Inr label) \<longrightarrow>
            (\<forall>x \<in> set slots. date x = label))"
proof -
  from get_available_slots_reads [OF assms] obtain w1 es w2 where
    w: "wait_for_selector P ''.time-slot'' 10000 (world s) = (Inr (), w1)" and
    q: "query_selector_all P ''.time-slot'' w1 = (Inr es, w2)" and
    r: "map (\<lambda>x. (Inr (time x), Inr (date x))) slots = slot_reads P (take 5 es) w2" and
    n: "length (filter is_label_read (drop (length (calls s)) (calls s'))) = length slots"
    by blast
  have "(\<forall>(time_read, label_read) \<in> set (slot_reads P (take 5 es) w2).
                label_read = Inr label) \<longrightarrow>
            (\<forall>x \<in> set slots. date x = label)"
    using reads_same_label [OF r] by blast
  with w q r n show ?thesis by blast
qed

text \<open>
  On a page whose label changes during the scrape, the dates of the slots are the
  three label texts read, one per iteration. On the example page the label is read
  three times, with the same text each time.
\<close>

theorem date_label_read_per_slot_witness:
  "get_available_slots live_page
     (example_service [example_site, example_site, example_site, example_site, example_site,
                       next_day_site]) =
     (Inr [\<lparr>date = ''Oct 10, 2025'', time = ''9:00 AM''\<rparr>,
           \<lparr>date = ''Oct 11, 2025'', time = ''9:30 AM''\<rparr>,
           \<lparr>date = ''Oct 11, 2025'', time = ''10:00 AM''\<rparr>],
      snd (get_available_slots live_page
        (example_service [example_site, example_site, example_site, example_site, example_site,
                          next_day_site])))
   \<and> slot_reads live_page (take 5 [0, 1, 2])
        [example_site, example_site, example_site, next_day_site] =
      [(Inr ''9:00 AM'', Inr ''Oct 10, 2025''),
       (Inr ''9:30 AM'', Inr ''Oct 11, 2025''),
       (Inr ''10:00 AM'', Inr ''Oct 11, 2025'')]
   \<and> get_available_slots (static_page example_site) (example_service ()) =
       (Inr example_slots, snd (get_available_slots (static_page example_site) (example_service ())))
   \<and> length (filter is_label_read
        (drop (length (calls (example_service () :: (unit, nat) SchedulingService)))
           (calls (snd (get_available_slots (static_page example_site) (example_service ())))))) =
       length example_slots
   \<and> list_all (\<lambda>x. date x = ''Oct 10, 2025'') example_slots"
proof -
  let ?L = "example_service [example_site, example_site, example_site, example_site, example_site,
                       next_day_site] :: (site list, nat) SchedulingService"
  let ?changing = "[\<lparr>date = ''Oct 10, 2025'', time = ''9:00 AM''\<rparr>,
           \<lparr>date = ''Oct 11, 2025'', time = ''9:30 AM''\<rparr>,
           \<lparr>date = ''Oct 11, 2025'', time = ''10:00 AM''\<rparr>]"
  let ?P = "static_page example_site :: (unit, nat) page"
  let ?s = "example_service () :: (unit, nat) SchedulingService"
  have hl: "get_available_slots live_page ?L = (Inr ?changing, snd (get_available_slots live_page ?L))"
    by (simp add: run_defs upt_rec)
  from date_label_read_per_slot [OF hl] obtain w1 es w2 where
    lw: "wait_for_selector live_page ''.time-slot'' 10000 (world ?L) = (Inr (), w1)" and
    lq: "query_selector_all live_page ''.time-slot'' w1 = (Inr es, w2)" and
    lr: "map (\<lambda>x. (Inr (time x), Inr (date x))) ?changing = slot_reads live_page (take 5 es) w2"
    by blast
  from lw have w1: "w1 = [example_site, example_site, example_site, example_site, next_day_site]"
    by (simp add: live_page_def static_page_def example_site_def example_service_def init_def)
  from lq have "es = [0, 1, 2] \<and> w2 = [example_site, example_site, example_site, next_day_site]"
    unfolding w1 by (auto simp add: live_page_def static_page_def example_site_def upt_rec)
  with lr have live: "slot_reads live_page (take 5 [0, 1, 2])
        [example_site, example_site, example_site, next_day_site] =
      [(Inr ''9:00 AM'', Inr ''Oct 10, 2025''),
       (Inr ''9:30 AM'', Inr ''Oct 11, 2025''),
       (Inr ''10:00 AM'', Inr ''Oct 11, 2025'')]"
    by simp
  have h: "get_available_slots ?P ?s = (Inr example_slots, snd (get_available_slots ?P ?s))"
    by (simp add: run_defs upt_rec)
  from date_label_read_per_slot [OF h, of "''Oct 10, 2025''"] obtain v1 found v2 where
    q: "query_selector_all ?P ''.time-slot'' v1 = (Inr found, v2)" and
    n: "length (filter is_label_read (drop (length (calls ?s)) (calls (snd (get_available_slots ?P ?s))))) =
          length example_slots" and
    same: "(\<forall>(time_read, label_read) \<in> set (slot_reads ?P (take 5 found) v2).
                label_read = Inr ''Oct 10, 2025'') \<longrightarrow>
            (\<forall>x \<in> set example_slots. date x = ''Oct 10, 2025'')"
    by blast
  from q have f: "found = [0, 1, 2]"
    by (auto simp add: static_page_def example_site_def upt_rec)
  have "\<forall>(time_read, label_read) \<in> set (slot_reads ?P (take 5 [0, 1, 2]) v2).
                label_read = Inr ''Oct 10, 2025''"
    by (simp add: static_page_def example_site_def)
  with same f have "\<forall>x \<in> set example_slots. date x = ''Oct 10, 2025''" by blast
  then have all: "list_all (\<lambda>x. date x = ''Oct 10, 2025'') example_slots"
    by (simp add: list_all_iff)
  from hl live h n all show ?thesis by blast
qed

text \<open>
  The claim as written (the label is read once and all slots carry the same date)
  fails on a page whose label changes during the scrape: three reads, two dates.
\<close>

theorem date_label_counterexample:
  "fst (get_available_slots live_page
          (example_service [example_site, example_site, example_site, example_site, example_site,
                            next_day_site])) =
     Inr [\<lparr>date = ''Oct 10, 2025'', time = ''9:00 AM''\<rparr>,
          \<lparr>date = ''Oct 11, 2025'', time = ''9:30 AM''\<rparr>,
          \<lparr>date = ''Oct 11, 2025'', time = ''10:00 AM''\<rparr>]
   \<and> filter is_label_read
       (calls (snd (get_available_slots live_page
          (example_service [example_site, example_site, example_site, example_site, example_site,
                            next_day_site])))) =
     [LocatorInnerText ''.selected-date'', LocatorInnerText ''.selected-date'',
      LocatorInnerText ''.selected-date'']"
  by (simp add: run_defs upt_rec)

subsection \<open>C7: distinct cache keys\<close>

text \<open>
  Claim C7. Two cache keys are equal exactly when the appointment types are equal and
  the date preferences are equal; in particular the key of an absent preference
  differs from the key of every date string. Two successful queries that differ in
  the date preference only are stored under two different keys, each with its own
  result.
\<close>

theorem cache_key_distinctness:
  "(cache_key t d = cache_key t' d' \<longleftrightarrow> t = t' \<and> d = d') \<and>
   cache_key t None \<noteq> cache_key t (Some x) \<and>
   (d \<noteq> d' \<and> check_available_appointments P t d s = (Inr r, s1) \<and>
    check_available_appointments P' t d' s1 = (Inr r', s2) \<longrightarrow>
      cache_key t d \<noteq> cache_key t d' \<and>
      state s2 (cache_key t d) = Some r \<and> state s2 (cache_key t d') = Some r')"
proof -
  have keys: "cache_key t d = cache_key t' d' \<longleftrightarrow> t = t' \<and> d = d'"
    by (simp add: cache_key_def)
  have none: "cache_key t None \<noteq> cache_key t (Some x)"
    by (simp add: cache_key_def)
  have two: "cache_key t d \<noteq> cache_key t d' \<and>
      state s2 (cache_key t d) = Some r \<and> state s2 (cache_key t d') = Some r'"
    if ne: "d \<noteq> d'" and a: "check_available_appointments P t d s = (Inr r, s1)"
      and b: "check_available_appointments P' t d' s1 = (Inr r', s2)"
  proof -
    from ne have k: "cache_key t d \<noteq> cache_key t d'" by (simp add: cache_key_def)
    from check_Inr_state [OF a] have "state s1 (cache_key t d) = Some r" by blast
    moreover from check_Inr_state [OF b] k have
      "state s2 (cache_key t d') = Some r'" "state s2 (cache_key t d) = state s1 (cache_key t d)"
      by blast+
    ultimately show ?thesis using k by simp
  qed
  from keys none two show ?thesis by blast
qed

text \<open>
  A query without a date returns three slots; the page then shows more slots and the
  query for a date returns five. Both lists are in the cache afterwards.
\<close>

theorem cache_key_distinctness_witness:
  "None \<noteq> Some ''Oct 12, 2025''
   \<and> check_available_appointments (static_page example_site) ''New appointment'' None (example_service ()) =
       (Inr example_slots,
        snd (check_available_appointments (static_page example_site) ''New appointment'' None (example_service ())))
   \<and> check_available_appointments (static_page busy_site) ''New appointment'' (Some ''Oct 12, 2025'')
        (snd (check_available_appointments (static_page example_site) ''New appointment'' None (example_service ()))) =
       (Inr (example_slots @ [\<lparr>date = ''Oct 10, 2025'', time = ''10:30 AM''\<rparr>,
                              \<lparr>date = ''Oct 10, 2025'', time = ''11:00 AM''\<rparr>]),
        snd (check_available_appointments (static_page busy_site) ''New appointment'' (Some ''Oct 12, 2025'')
          (snd (check_available_appointments (static_page example_site) ''New appointment'' None (example_service ())))))
   \<and> state (snd (check_available_appointments (static_page busy_site) ''New appointment'' (Some ''Oct 12, 2025'')
          (snd (check_available_appointments (static_page example_site) ''New appointment'' None (example_service ())))))
        (cache_key ''New appointment'' None) = Some example_slots
   \<and> state (snd (check_available_appointments (static_page busy_site) ''New appointment'' (Some ''Oct 12, 2025'')
          (snd (check_available_appointments (static_page example_site) ''New appointment'' None (example_service ())))))
        (cache_key ''New appointment'' (Some ''Oct 12, 2025'')) =
       Some (example_slots @ [\<lparr>date = ''Oct 10, 2025'', time = ''10:30 AM''\<rparr>,
                              \<lparr>date = ''Oct 10, 2025'', time = ''11:00 AM''\<rparr>])"
proof -
  let ?s = "example_service () :: (unit, nat) SchedulingService"
  let ?s1 = "snd (check_available_appointments (static_page example_site) ''New appointment'' None ?s)"
  let ?s2 = "snd (check_available_appointments (static_page busy_site) ''New appointment''
                    (Some ''Oct 12, 2025'') ?s1)"
  let ?more = "example_slots @ [\<lparr>date = ''Oct 10, 2025'', time = ''10:30 AM''\<rparr>,
                              \<lparr>date = ''Oct 10, 2025'', time = ''11:00 AM''\<rparr>]"
  have ne: "None \<noteq> Some ''Oct 12, 2025''" by simp
  have a: "check_available_appointments (static_page example_site) ''New appointment'' None ?s =
       (Inr example_slots, ?s1)"
    by (simp add: run_defs upt_rec)
  have b: "check_available_appointments (static_page busy_site) ''New appointment'' (Some ''Oct 12, 2025'') ?s1 =
       (Inr ?more, ?s2)"
    by (simp add: run_defs upt_rec)
  from cache_key_distinctness [of "''New appointment''" None "''New appointment''" "Some ''Oct 12, 2025''"
      "''Oct 12, 2025''" "static_page example_site" ?s example_slots ?s1 "static_page busy_site" ?more ?s2]
    ne a b
  show ?thesis by blast
qed

subsection \<open>C8: the error raised when the screenshot fails\<close>

text \<open>
  Claim C8, as the code has it. In each of the four steps, when the \<open>try\<close> block raises
  \<open>e\<close>, the handler takes the screenshot: when the screenshot succeeds the step raises
  \<open>e\<close>, and when the screenshot raises \<open>e2\<close> the step raises \<open>e2\<close>, since nothing catches
  it. Every failed query ends with that screenshot call.
\<close>

theorem screenshot_outcome_decides_raised_error:
  "(\<forall>e s1. navigate_try P s = (Inl e, s1) \<longrightarrow>
      fst (navigate_to_scheduling_page P s) =
        (case fst (screenshot P error_screenshot (world s1)) of Inl e2 \<Rightarrow> Inl e2 | Inr _ \<Rightarrow> Inl e)) \<and>
   (\<forall>e s1. select_try P t s = (Inl e, s1) \<longrightarrow>
      fst (select_appointment_type_direct_click P t s) =
        (case fst (screenshot P error_screenshot (world s1)) of Inl e2 \<Rightarrow> Inl e2 | Inr _ \<Rightarrow> Inl e)) \<and>
   (\<forall>e s1. truthy (Some d) \<and> page_click P (text_selector d) s = (Inl e, s1) \<longrightarrow>
      fst (set_date_preference P (Some d) s) =
        (case fst (screenshot P error_screenshot (world s1)) of Inl e2 \<Rightarrow> Inl e2 | Inr _ \<Rightarrow> Inl e)) \<and>
   (\<forall>e s1. get_slots_try P s = (Inl e, s1) \<longrightarrow>
      fst (get_available_slots P s) =
        (case fst (screenshot P error_screenshot (world s1)) of Inl e2 \<Rightarrow> Inl e2 | Inr _ \<Rightarrow> Inl e)) \<and>
   (\<forall>e s'. check_available_appointments P t dp s = (Inl e, s') \<longrightarrow>
      (\<exists>pre. calls s' = pre @ [Screenshot error_screenshot]))"
proof (intro conjI allI impI)
  fix e s1
  assume "navigate_try P s = (Inl e, s1)"
  then show "fst (navigate_to_scheduling_page P s) =
        (case fst (screenshot P error_screenshot (world s1)) of Inl e2 \<Rightarrow> Inl e2 | Inr _ \<Rightarrow> Inl e)"
    unfolding navigate_to_scheduling_page_def by (rule try_except_reraise)
next
  fix e s1
  assume "select_try P t s = (Inl e, s1)"
  then show "fst (select_appointment_type_direct_click P t s) =
        (case fst (screenshot P error_screenshot (world s1)) of Inl e2 \<Rightarrow> Inl e2 | Inr _ \<Rightarrow> Inl e)"
    unfolding select_appointment_type_direct_click_def by (rule try_except_reraise)
next
  fix e s1
  assume a: "truthy (Some d) \<and> page_click P (text_selector d) s = (Inl e, s1)"
  then have "set_date_preference P (Some d) = try_except P (page_click P (text_selector d))"
    by (simp add: set_date_preference_def)
  with a show "fst (set_date_preference P (Some d) s) =
        (case fst (screenshot P error_screenshot (world s1)) of Inl e2 \<Rightarrow> Inl e2 | Inr _ \<Rightarrow> Inl e)"
    by (simp add: try_except_reraise)
next
  fix e s1
  assume "get_slots_try P s = (Inl e, s1)"
  then show "fst (get_available_slots P s) =
        (case fst (screenshot P error_screenshot (world s1)) of Inl e2 \<Rightarrow> Inl e2 | Inr _ \<Rightarrow> Inl e)"
    unfolding get_available_slots_def by (rule try_except_reraise)
next
  fix e s'
  assume a: "check_available_appointments P t dp s = (Inl e, s')"
  then have "state s (cache_key t dp) = None"
    by (cases "state s (cache_key t dp)") (simp_all add: check_eq)
  with a have "query_flow P t dp s = (Inl e, s')" by (simp add: check_miss_Inl)
  then show "\<exists>pre. calls s' = pre @ [Screenshot error_screenshot]"
    by (rule query_flow_Inl_ends_with_screenshot)
qed

text \<open>
  On a page where every step fails and no screenshot can be taken, each step raises
  the error of the screenshot.
\<close>

theorem screenshot_outcome_decides_raised_error_witness:
  "navigate_try (static_page closed_site) (example_service ()) =
     (Inl (PlaywrightError ''net::ERR_CONNECTION_REFUSED''),
      snd (navigate_try (static_page closed_site) (example_service ())))
   \<and> fst (navigate_to_scheduling_page (static_page closed_site) (example_service ())) =
       Inl (PlaywrightError ''Page.screenshot: Target closed'')
   \<and> select_try (static_page closed_site) ''New appointment'' (example_service ()) =
     (Inl (TimeoutError ''Page.click: Timeout 30000ms exceeded.''),
      snd (select_try (static_page closed_site) ''New appointment'' (example_service ())))
   \<and> fst (select_appointment_type_direct_click (static_page closed_site) ''New appointment''
            (example_service ())) =
       Inl (PlaywrightError ''Page.screenshot: Target closed'')
   \<and> truthy (Some ''Oct 12, 2025'')
   \<and> page_click (static_page closed_site) (text_selector ''Oct 12, 2025'') (example_service ()) =
     (Inl (TimeoutError ''Page.click: Timeout 30000ms exceeded.''),
      snd (page_click (static_page closed_site) (text_selector ''Oct 12, 2025'') (example_service ())))
   \<and> fst (set_date_preference (static_page closed_site) (Some ''Oct 12, 2025'') (example_service ())) =
       Inl (PlaywrightError ''Page.screenshot: Target closed'')
   \<and> get_slots_try (static_page closed_site) (example_service ()) =
     (Inl (TimeoutError ''Page.wait_for_selector: Timeout exceeded.''),
      snd (get_slots_try (static_page closed_site) (example_service ())))
   \<and> fst (get_available_slots (static_page closed_site) (example_service ())) =
       Inl (PlaywrightError ''Page.screenshot: Target closed'')
   \<and> check_available_appointments (static_page closed_site) ''New appointment'' None (example_service ()) =
     (Inl (PlaywrightError ''Page.screenshot: Target closed''),
      snd (check_available_appointments (static_page closed_site) ''New appointment'' None (example_service ())))
   \<and> (\<exists>pre. calls (snd (check_available_appointments (static_page closed_site) ''New appointment'' None
                 (example_service ()))) = pre @ [Screenshot error_screenshot])"
proof -
  let ?P = "static_page closed_site :: (unit, nat) page"
  let ?s = "example_service () :: (unit, nat) SchedulingService"
  note T = screenshot_outcome_decides_raised_error
    [of ?P ?s "''New appointment''" "''Oct 12, 2025''" None]
  have cam: "fst (screenshot ?P error_screenshot w) = Inl (PlaywrightError ''Page.screenshot: Target closed'')"
    for w :: unit
    by (simp add: static_page_def closed_site_def)
  have h1: "navigate_try ?P ?s =
     (Inl (PlaywrightError ''net::ERR_CONNECTION_REFUSED''), snd (navigate_try ?P ?s))"
    by (simp add: run_defs)
  have h2: "select_try ?P ''New appointment'' ?s =
     (Inl (TimeoutError ''Page.click: Timeout 30000ms exceeded.''),
      snd (select_try ?P ''New appointment'' ?s))"
    by (simp add: run_defs)
  have h3: "truthy (Some ''Oct 12, 2025'') \<and> page_click ?P (text_selector ''Oct 12, 2025'') ?s =
     (Inl (TimeoutError ''Page.click: Timeout 30000ms exceeded.''),
      snd (page_click ?P (text_selector ''Oct 12, 2025'') ?s))"
    by (simp add: run_defs)
  have h4: "get_slots_try ?P ?s =
     (Inl (TimeoutError ''Page.wait_for_selector: Timeout exceeded.''), snd (get_slots_try ?P ?s))"
    by (simp add: run_defs)
  have h5: "check_available_appointments ?P ''New appointment'' None ?s =
     (Inl (PlaywrightError ''Page.screenshot: Target closed''),
      snd (check_available_appointments ?P ''New appointment'' None ?s))"
    by (simp add: run_defs)
  from T h1 have "fst (navigate_to_scheduling_page ?P ?s) =
       (case fst (screenshot ?P error_screenshot (world (snd (navigate_try ?P ?s)))) of
          Inl e2 \<Rightarrow> Inl e2 | Inr _ \<Rightarrow> Inl (PlaywrightError ''net::ERR_CONNECTION_REFUSED''))"
    by blast
  then have c1: "fst (navigate_to_scheduling_page ?P ?s) =
       Inl (PlaywrightError ''Page.screenshot: Target closed'')"
    by (simp add: cam)
  from T h2 have "fst (select_appointment_type_direct_click ?P ''New appointment'' ?s) =
       (case fst (screenshot ?P error_screenshot (world (snd (select_try ?P ''New appointment'' ?s)))) of
          Inl e2 \<Rightarrow> Inl e2 | Inr _ \<Rightarrow> Inl (TimeoutError ''Page.click: Timeout 30000ms exceeded.''))"
    by blast
  then have c2: "fst (select_appointment_type_direct_click ?P ''New appointment'' ?s) =
       Inl (PlaywrightError ''Page.screenshot: Target closed'')"
    by (simp add: cam)
  from T h3 have "fst (set_date_preference ?P (Some ''Oct 12, 2025'') ?s) =
       (case fst (screenshot ?P error_screenshot (world (snd (page_click ?P (text_selector ''Oct 12, 2025'') ?s)))) of
          Inl e2 \<Rightarrow> Inl e2 | Inr _ \<Rightarrow> Inl (TimeoutError ''Page.click: Timeout 30000ms exceeded.''))"
    by blast
  then have c3: "fst (set_date_preference ?P (Some ''Oct 12, 2025'') ?s) =
       Inl (PlaywrightError ''Page.screenshot: Target closed'')"
    by (simp add: cam)
  from T h4 have "fst (get_available_slots ?P ?s) =
       (case fst (screenshot ?P error_screenshot (world (snd (get_slots_try ?P ?s)))) of
          Inl e2 \<Rightarrow> Inl e2 | Inr _ \<Rightarrow> Inl (TimeoutError ''Page.wait_for_selector: Timeout exceeded.''))"
    by blast
  then have c4: "fst (get_available_slots ?P ?s) =
       Inl (PlaywrightError ''Page.screenshot: Target closed'')"
    by (simp add: cam)
  from T h5 have c5: "\<exists>pre. calls (snd (check_available_appointments ?P ''New appointment'' None ?s)) =
       pre @ [Screenshot error_screenshot]"
    by blast
  from h1 h2 h3 h4 h5 c1 c2 c3 c4 c5 show ?thesis by blast
qed

text \<open>
  The claim as written (a failing screenshot never replaces the original error) fails
  on an unreachable page whose screenshot fails: \<open>goto\<close> raised the connection error,
  the caller receives the error of the screenshot.
\<close>

theorem screenshot_failure_counterexample:
  "fst (navigate_try (static_page no_camera_site) (example_service ())) =
     Inl (PlaywrightError ''net::ERR_CONNECTION_REFUSED'')
   \<and> fst (navigate_to_scheduling_page (static_page no_camera_site) (example_service ())) =
     Inl (PlaywrightError ''Page.screenshot: Target closed'')
   \<and> fst (check_available_appointments (static_page no_camera_site) ''New appointment'' None
            (example_service ())) =
     Inl (PlaywrightError ''Page.screenshot: Target closed'')"
  by (simp add: run_defs)

subsection \<open>C9: the end-to-end example\<close>

text \<open>
  Claim C9. On a page that loads, where \<open>New appointment\<close> can be clicked, whose
  \<open>.time-slot\<close> elements have the texts \<open>9:00 AM\<close>, \<open>9:30 AM\<close>, \<open>10:00 AM\<close> in document
  order and whose \<open>.selected-date\<close> label reads \<open>Oct 10, 2025\<close>, the query for
  \<open>New appointment\<close> with no date preference, on a service that has not cached it,
  returns the three slots with that date, in that order.
\<close>

theorem end_to_end_example:
  assumes "state s (cache_key ''New appointment'' None) = None"
    and "\<forall>w. fst (goto P (url s) w) = Inr ()"
    and "\<forall>w. fst (wait_for_load_state P ''networkidle'' w) = Inr ()"
    and "\<forall>w. fst (click P (text_selector ''New appointment'') w) = Inr ()"
    and "\<forall>w. fst (wait_for_selector P ''.time-slot'' 10000 w) = Inr ()"
    and "\<forall>w. fst (query_selector_all P ''.time-slot'' w) = Inr es"
    and "map txt es = [''9:00 AM'', ''9:30 AM'', ''10:00 AM'']"
    and "\<forall>el \<in> set es. \<forall>w. fst (inner_text P el w) = Inr (txt el)"
    and "\<forall>w. fst (locator_inner_text P ''.selected-date'' w) = Inr ''Oct 10, 2025''"
  shows "fst (check_available_appointments P ''New appointment'' None s) =
           Inr [\<lparr>date = ''Oct 10, 2025'', time = ''9:00 AM''\<rparr>,
                \<lparr>date = ''Oct 10, 2025'', time = ''9:30 AM''\<rparr>,
                \<lparr>date = ''Oct 10, 2025'', time = ''10:00 AM''\<rparr>]"
proof -
  let ?slots = "map (\<lambda>el. \<lparr>date = ''Oct 10, 2025'', time = txt el\<rparr>) (take 5 es)"
  from assms(7) have len: "length es = 3" by (metis length_map length_Cons list.size(3) numeral_3_eq_3)
  then have tk: "take 5 es = es" by simp
  from navigate_succeeds [OF assms(2,3)] obtain s1 where
    n: "navigate_to_scheduling_page P s = (Inr (), s1)" by blast
  from select_new_succeeds [OF assms(4)] obtain s2 where
    c: "select_appointment_type_direct_click P ''New appointment'' s1 = (Inr (), s2)" by blast
  from assms(8) tk have "\<forall>el \<in> set (take 5 es). \<forall>w. fst (inner_text P el w) = Inr (txt el)" by simp
  from get_available_slots_succeeds [OF assms(5,6) this assms(9)] obtain s3 where
    g: "get_available_slots P s2 = (Inr ?slots, s3)" by blast
  from n c g have "query_flow P ''New appointment'' None s = (Inr ?slots, s3)"
    by (simp add: query_flow_def andthen_def return_def)
  with assms(1) have "fst (check_available_appointments P ''New appointment'' None s) = Inr ?slots"
    by (simp add: check_eq andthen_def cache_store_def)
  moreover have "?slots = map (\<lambda>x. \<lparr>date = ''Oct 10, 2025'', time = x\<rparr>) (map txt es)"
    using tk by simp
  ultimately show ?thesis using assms(7) by simp
qed

text \<open>
  The example page satisfies every assumption.
\<close>

theorem end_to_end_example_witness:
  "state (example_service ()) (cache_key ''New appointment'' None) = None
   \<and> (\<forall>w :: unit. fst (goto (static_page example_site) (url (example_service ())) w) = Inr ())
   \<and> (\<forall>w :: unit. fst (wait_for_load_state (static_page example_site) ''networkidle'' w) = Inr ())
   \<and> (\<forall>w :: unit. fst (click (static_page example_site) (text_selector ''New appointment'') w) = Inr ())
   \<and> (\<forall>w :: unit. fst (wait_for_selector (static_page example_site) ''.time-slot'' 10000 w) = Inr ())
   \<and> (\<forall>w :: unit. fst (query_selector_all (static_page example_site) ''.time-slot'' w) = Inr [0, 1, 2])
   \<and> map (\<lambda>i. time_slots example_site ! i) [0, 1, 2] = [''9:00 AM'', ''9:30 AM'', ''10:00 AM'']
   \<and> (\<forall>w :: unit. fst (locator_inner_text (static_page example_site) ''.selected-date'' w) =
         Inr ''Oct 10, 2025'')
   \<and> fst (check_available_appointments (static_page example_site) ''New appointment'' None
            (example_service ())) =
       Inr [\<lparr>date = ''Oct 10, 2025'', time = ''9:00 AM''\<rparr>,
            \<lparr>date = ''Oct 10, 2025'', time = ''9:30 AM''\<rparr>,
            \<lparr>date = ''Oct 10, 2025'', time = ''10:00 AM''\<rparr>]"
proof -
  let ?P = "static_page example_site :: (unit, nat) page"
  let ?s = "example_service () :: (unit, nat) SchedulingService"
  have a1: "state ?s (cache_key ''New appointment'' None) = None"
    by (simp add: example_service_def init_def)
  have a2: "\<forall>w :: unit. fst (goto ?P (url ?s) w) = Inr ()"
    by (simp add: static_page_def example_site_def)
  have a3: "\<forall>w :: unit. fst (wait_for_load_state ?P ''networkidle'' w) = Inr ()"
    by (simp add: static_page_def)
  have a4: "\<forall>w :: unit. fst (click ?P (text_selector ''New appointment'') w) = Inr ()"
    by (simp add: static_page_def example_site_def)
  have a5: "\<forall>w :: unit. fst (wait_for_selector ?P ''.time-slot'' 10000 w) = Inr ()"
    by (simp add: static_page_def example_site_def)
  have a6: "\<forall>w :: unit. fst (query_selector_all ?P ''.time-slot'' w) = Inr [0, 1, 2]"
    by (simp add: static_page_def example_site_def upt_rec)
  have a7: "map (\<lambda>i. time_slots example_site ! i) [0, 1, 2] = [''9:00 AM'', ''9:30 AM'', ''10:00 AM'']"
    by (simp add: example_site_def)
  have a8: "\<forall>el \<in> set [0, 1, 2]. \<forall>w :: unit.
         fst (inner_text ?P el w) = Inr (time_slots example_site ! el)"
    by (simp add: static_page_def example_site_def)
  have a9: "\<forall>w :: unit. fst (locator_inner_text ?P ''.selected-date'' w) = Inr ''Oct 10, 2025''"
    by (simp add: static_page_def example_site_def)
  from end_to_end_example [OF a1 a2 a3 a4 a5 a6 a7 a8 a9] a1 a2 a3 a4 a5 a6 a7 a9
  show ?thesis by blast
qed

subsection \<open>C10: the empty string as date preference\<close>



end
